theory Spec2Isabelle
  imports Complex_Main "HOL-Library.Multiset"
begin

section \<open>Python values and exceptions\<close>

text \<open>
  The two modules \<open>astroML/plotting/smooth_contour.py\<close> and
  \<open>astroML/plotting/scatter_contour.py\<close> are Python 2 code on top of numpy, scipy and
  matplotlib. Exceptions are values: a function that can raise returns
  \<open>py_error + 'a\<close>, with \<open>Inl\<close> for the exception. \<open>LibError n\<close> stands for an
  exception raised inside a library routine (the number identifies it).
\<close>

datatype py_error =
  IndexError | TypeError | ValueError | AttributeError | UnboundLocalError | LibError nat

text \<open>
  The Python values that travel through \<open>*args\<close> and \<open>**kwargs\<close>: \<open>None\<close>, booleans,
  integers, floats (reals here), strings, one- and two-dimensional arrays, an axes object (by its
  identity) and any other object (opaque).
\<close>

datatype pyval =
  PNone | PBool bool | PInt int | PFloat real
  | PStr string | PArr "real list" | PMat "real list list" | PAxes nat | PObj nat

type_synonym kwargs = "string \<Rightarrow> pyval option"

text \<open>\<open>kwargs.pop(key, default)\<close>: the value and the dictionary without the key.\<close>

definition dict_pop :: "kwargs \<Rightarrow> string \<Rightarrow> pyval \<Rightarrow> pyval \<times> kwargs" where
  "dict_pop kw key dflt = (case kw key of None \<Rightarrow> (dflt, kw) | Some v \<Rightarrow> (v, kw(key := None)))"

text \<open>
  A whole number as numpy reads the length of an array (a Python \<open>bool\<close> is an \<open>int\<close>);
  anything else is \<open>TypeError\<close>.
\<close>

fun as_int :: "pyval \<Rightarrow> py_error + int" where
  "as_int (PInt n) = Inr n"
| "as_int (PBool b) = Inr (if b then 1 else 0)"
| "as_int _ = Inl TypeError"

fun as_axes :: "pyval \<Rightarrow> py_error + nat" where
  "as_axes (PAxes a) = Inr a"
| "as_axes _ = Inl AttributeError"

text \<open>
  The truth value of a numpy array of booleans: that of its entry when it has one,
  \<open>False\<close> when it has none, and \<open>ValueError\<close> otherwise (for numpy the truth value
  of an array with more than one element is ambiguous).
\<close>

definition array_truth :: "bool list \<Rightarrow> py_error + bool" where
  "array_truth bs = (case bs of [] \<Rightarrow> Inr False | [b] \<Rightarrow> Inr b | _ \<Rightarrow> Inl ValueError)"

text \<open>
  The truth value of a Python value, as \<open>not v\<close> reads it: \<open>None\<close>, \<open>False\<close>, zero and
  the empty string are false; an object without \<open>__nonzero__\<close> and \<open>__len__\<close> (an
  axes, an opaque object) is true.
\<close>

fun py_truth :: "pyval \<Rightarrow> py_error + bool" where
  "py_truth PNone = Inr False"
| "py_truth (PBool b) = Inr b"
| "py_truth (PInt n) = Inr (n \<noteq> 0)"
| "py_truth (PFloat r) = Inr (r \<noteq> 0)"
| "py_truth (PStr s) = Inr (s \<noteq> [])"
| "py_truth (PArr a) = array_truth (map (\<lambda>v. v \<noteq> 0) a)"
| "py_truth (PMat m) = array_truth (map (\<lambda>v. v \<noteq> 0) (concat m))"
| "py_truth (PAxes a) = Inr True"
| "py_truth (PObj obj) = Inr True"

text \<open>
  The tests \<open>n > v\<close> and \<open>v > n\<close> of Python 2 for an integer \<open>n\<close>, as an \<open>if\<close> reads
  them. Numbers compare by value. Python 2 orders values of other types too: \<open>None\<close> is
  below every number, and every number is below a string and below an object without
  comparison methods. A numpy array compares entry by entry, and the \<open>if\<close> takes the
  truth value of the array of results.
\<close>

fun int_gt :: "int \<Rightarrow> pyval \<Rightarrow> py_error + bool" where
  "int_gt n PNone = Inr True"
| "int_gt n (PBool b) = Inr (n > (if b then 1 else 0))"
| "int_gt n (PInt m) = Inr (n > m)"
| "int_gt n (PFloat r) = Inr (of_int n > r)"
| "int_gt n (PStr s) = Inr False"
| "int_gt n (PArr a) = array_truth (map (\<lambda>v. of_int n > v) a)"
| "int_gt n (PMat m) = array_truth (map (\<lambda>v. of_int n > v) (concat m))"
| "int_gt n (PAxes a) = Inr False"
| "int_gt n (PObj obj) = Inr False"

fun gt_int :: "pyval \<Rightarrow> int \<Rightarrow> py_error + bool" where
  "gt_int PNone n = Inr False"
| "gt_int (PBool b) n = Inr ((if b then 1 else 0) > n)"
| "gt_int (PInt m) n = Inr (m > n)"
| "gt_int (PFloat r) n = Inr (r > of_int n)"
| "gt_int (PStr s) n = Inr True"
| "gt_int (PArr a) n = array_truth (map (\<lambda>v. v > of_int n) a)"
| "gt_int (PMat m) n = array_truth (map (\<lambda>v. v > of_int n) (concat m))"
| "gt_int (PAxes a) n = Inr True"
| "gt_int (PObj obj) n = Inr True"

section \<open>The numpy routines the code calls\<close>

text \<open>\<open>np.ones(n)*2\<close> as an array of path codes; a negative length raises.\<close>

definition np_ones_times2 :: "int \<Rightarrow> py_error + nat list" where
  "np_ones_times2 n = (if n < 0 then Inl ValueError else Inr (replicate (nat n) 2))"

text \<open>\<open>a[i] = v\<close> on an array.\<close>

definition array_setitem :: "'a list \<Rightarrow> nat \<Rightarrow> 'a \<Rightarrow> py_error + 'a list" where
  "array_setitem a i v = (if i < length a then Inr (a[i := v]) else Inl IndexError)"

text \<open>
  \<open>np.linspace(start, stop, num)\<close>: \<open>num\<close> evenly spaced values from \<open>start\<close> to
  \<open>stop\<close>, both included.
\<close>

definition np_linspace :: "real \<Rightarrow> real \<Rightarrow> int \<Rightarrow> py_error + real list" where
  "np_linspace start stop num =
     (if num < 0 then Inl ValueError
      else if num = 1 then Inr [start]
      else Inr (map (\<lambda>i. start + real i * ((stop - start) / real (nat num - 1))) [0..<nat num]))"

text \<open>
  \<open>np.vstack(arrays)\<close> of one-dimensional arrays: the matrix with these rows; no array,
  or arrays of different lengths, raise.
\<close>

definition np_vstack :: "real list list \<Rightarrow> py_error + real list list" where
  "np_vstack arrays =
     (case arrays of
        [] \<Rightarrow> Inl ValueError
      | a # _ \<Rightarrow> if list_all (\<lambda>b. length b = length a) arrays then Inr arrays else Inl ValueError)"

text \<open>
  \<open>np.vstack([a, b])\<close> of two matrices: the rows of \<open>a\<close>, then those of \<open>b\<close>; rows of
  different widths raise.
\<close>

definition np_vstack2 :: "real list list \<Rightarrow> real list list \<Rightarrow> py_error + real list list" where
  "np_vstack2 a b =
     (case a @ b of
        [] \<Rightarrow> Inr []
      | r # _ \<Rightarrow> if list_all (\<lambda>q. length q = length r) (a @ b) then Inr (a @ b) else Inl ValueError)"

text \<open>
  \<open>np.dstack([seg, seg2]).mean(axis=2)\<close>: the entrywise mean of two matrices of one
  shape; different shapes raise.
\<close>

definition dstack_mean :: "real list list \<Rightarrow> real list list \<Rightarrow> py_error + real list list" where
  "dstack_mean seg seg2 =
     (if map length seg = map length seg2
      then Inr (map2 (\<lambda>r r2. map2 (\<lambda>a b. (a + b) / 2) r r2) seg seg2)
      else Inl ValueError)"

text \<open>\<open>a[lo:hi]\<close> for indices \<open>0 \<le> lo\<close>, \<open>0 \<le> hi\<close>.\<close>

definition py_slice :: "'a list \<Rightarrow> nat \<Rightarrow> nat \<Rightarrow> 'a list" where
  "py_slice a lo hi = take (hi - lo) (drop lo a)"

text \<open>\<open>np.where(kind == 1)\<close>: the indices of the entries equal to 1, ascending.\<close>

definition np_where_eq1 :: "nat list \<Rightarrow> nat list" where
  "np_where_eq1 kind = filter (\<lambda>i. kind ! i = 1) [0..<length kind]"

section \<open>\<open>unique_vec\<close>\<close>

text \<open>
  \<^verbatim>\<open>
  def unique_vec(A):
      ud={}
      per=0
      for idx,i in enumerate(A):
          k=tuple(i)
          ud.setdefault(k,0)
          ud[k]=idx
      gdx=np.sort(ud.values()) #index of unique values
      if gdx[0]!=0:
          gdx=np.append(0,gdx)
          per=1
      return A[gdx],per
  \<close>
  The dictionary \<open>ud\<close> is an association list with one entry for each key. A
  Python 2 dictionary lists its values in an order of its own: \<open>ud.values()\<close> is the
  list of the values rearranged by a function \<open>perm\<close>, a parameter of the model, of which
  \<open>dict_order perm\<close> says that it only rearranges. The rows of \<open>A\<close> are values of any
  type \<open>'a\<close> (\<open>tuple(i)\<close> is the row itself).
\<close>

definition dict_order :: "(nat list \<Rightarrow> nat list) \<Rightarrow> bool" where
  "dict_order perm = (\<forall>vs. mset (perm vs) = mset vs)"

fun dict_setdefault :: "('k \<times> 'v) list \<Rightarrow> 'k \<Rightarrow> 'v \<Rightarrow> ('k \<times> 'v) list" where
  "dict_setdefault [] k v = [(k, v)]"
| "dict_setdefault (p # ps) k v = (if fst p = k then p # ps else p # dict_setdefault ps k v)"

fun dict_setitem :: "('k \<times> 'v) list \<Rightarrow> 'k \<Rightarrow> 'v \<Rightarrow> ('k \<times> 'v) list" where
  "dict_setitem [] k v = [(k, v)]"
| "dict_setitem (p # ps) k v = (if fst p = k then (k, v) # ps else p # dict_setitem ps k v)"

definition dict_values :: "(nat list \<Rightarrow> nat list) \<Rightarrow> ('k \<times> nat) list \<Rightarrow> nat list" where
  "dict_values perm ud = perm (map snd ud)"

text \<open>The loop over \<open>enumerate(A)\<close>, started at index \<open>idx\<close>.\<close>

fun unique_loop :: "('a \<times> nat) list \<Rightarrow> nat \<Rightarrow> 'a list \<Rightarrow> ('a \<times> nat) list" where
  "unique_loop ud idx [] = ud"
| "unique_loop ud idx (i # rest) =
     unique_loop (dict_setitem (dict_setdefault ud i 0) i idx) (Suc idx) rest"

text \<open>\<open>A[gdx]\<close>: the rows of \<open>A\<close> at the indices \<open>gdx\<close>; an index out of range raises.\<close>

definition take_rows :: "'a list \<Rightarrow> nat list \<Rightarrow> py_error + 'a list" where
  "take_rows A gdx =
     (if list_all (\<lambda>i. i < length A) gdx then Inr (map (\<lambda>i. A ! i) gdx) else Inl IndexError)"

definition unique_vec :: "(nat list \<Rightarrow> nat list) \<Rightarrow> 'a list \<Rightarrow> py_error + ('a list \<times> nat)" where
  "unique_vec perm A =
     (let ud = unique_loop [] 0 A;
          gdx = sort (dict_values perm ud)
      in case gdx of
           [] \<Rightarrow> Inl IndexError
         | g0 # _ \<Rightarrow>
             if g0 \<noteq> 0
             then (case take_rows A (0 # gdx) of Inl e \<Rightarrow> Inl e | Inr useg \<Rightarrow> Inr (useg, 1))
             else (case take_rows A gdx of Inl e \<Rightarrow> Inl e | Inr useg \<Rightarrow> Inr (useg, 0)))"

text \<open>
  For the proofs: the last index at which \<open>k\<close> stands in \<open>xs\<close> (the value that the loop
  leaves under the key \<open>k\<close>).
\<close>

fun last_pos :: "'a list \<Rightarrow> 'a \<Rightarrow> nat" where
  "last_pos [] k = 0"
| "last_pos (x # xs) k = (if k \<in> set xs then Suc (last_pos xs k) else 0)"

section \<open>\<open>SmoothContour\<close>\<close>

text \<open>
  The object's own attributes, set by \<open>__init__\<close>, and the part that the base class
  \<open>ContourSet\<close> builds (\<open>self_base\<close>).
  \<^verbatim>\<open>
  def __init__(self, ax, *args, **kwargs):
      self.smooth=kwargs.pop('smooth',0)
      self.k=kwargs.pop('k',3)
      self.int_number=kwargs.pop('int_number',100)
      self.kinds_fill=np.ones(self.int_number)*2
      self.kinds_fill[0]=1
      self.unew=np.linspace(0,1,self.int_number)
      ContourSet.__init__(self, ax, *args, **kwargs)
  \<close>
  \<open>smooth\<close> and \<open>k\<close> are stored as they come, whatever their type. \<open>int_number\<close> is
  the length that \<open>np.ones\<close> and \<open>np.linspace\<close> accept, or they raise.
\<close>

record 'cs SmoothContour =
  self_smooth :: pyval
  self_k :: pyval
  self_int_number :: int
  self_kinds_fill :: "nat list"
  self_unew :: "real list"
  self_base :: 'cs

text \<open>
  The state the plotting calls act on: the hold flag of every axes (by identity; the
  attribute \<open>_hold\<close>, which holds whatever value was last stored) and the rest of the
  figure state.
\<close>

record 'r world =
  ax_hold :: "nat \<Rightarrow> pyval"
  figure :: 'r

text \<open>
  The matplotlib entry points that \<open>smooth_contour.py\<close> calls, as parameters:
  \<open>pyplot.gca()\<close> (it may create a figure and axes; it leaves the hold flags alone),
  \<open>ContourSet.__init__\<close>, \<open>pyplot.draw_if_interactive()\<close>, the test
  \<open>ret._A is not None\<close> and \<open>pyplot.sci(ret)\<close> (it sets the current image of the
  figure state). The constructor and the drawing may change the whole state, and raise.
\<close>

record ('r, 'cs) pyplot =
  gca :: "'r \<Rightarrow> nat \<times> 'r"
  ContourSet_init :: "nat \<Rightarrow> pyval list \<Rightarrow> kwargs \<Rightarrow> 'r world \<Rightarrow> (py_error + 'cs) \<times> 'r world"
  draw_if_interactive :: "'r world \<Rightarrow> (py_error + unit) \<times> 'r world"
  has_A :: "'cs \<Rightarrow> bool"
  sci :: "'cs \<Rightarrow> 'r \<Rightarrow> (py_error + unit) \<times> 'r"

text \<open>
  \<open>Axes.ishold()\<close> and \<open>Axes.hold(b)\<close> of matplotlib:
  \<^verbatim>\<open>
  def ishold(self):
      return self._hold
  def hold(self, b=None):
      if b is None:
          self._hold = not self._hold
      else:
          self._hold = b
  \<close>
\<close>

definition ishold :: "'r world \<Rightarrow> nat \<Rightarrow> pyval" where
  "ishold w ax = ax_hold w ax"

definition hold :: "'r world \<Rightarrow> nat \<Rightarrow> pyval \<Rightarrow> py_error + 'r world" where
  "hold w ax b =
     (if b = PNone
      then (case py_truth (ax_hold w ax) of
              Inl e \<Rightarrow> Inl e
            | Inr t \<Rightarrow> Inr (w\<lparr>ax_hold := (ax_hold w)(ax := PBool (\<not> t))\<rparr>))
      else Inr (w\<lparr>ax_hold := (ax_hold w)(ax := b)\<rparr>))"

text \<open>
  The arrays of \<open>__init__\<close>: \<open>np.ones(int_number)*2\<close> with its first entry set to 1,
  and \<open>np.linspace(0,1,int_number)\<close>.
\<close>

definition init_arrays :: "pyval \<Rightarrow> py_error + (int \<times> nat list \<times> real list)" where
  "init_arrays int_number_v =
     (case as_int int_number_v of Inl e \<Rightarrow> Inl e | Inr int_number \<Rightarrow>
      (case np_ones_times2 int_number of Inl e \<Rightarrow> Inl e | Inr twos \<Rightarrow>
       (case array_setitem twos 0 1 of Inl e \<Rightarrow> Inl e | Inr kinds_fill \<Rightarrow>
        (case np_linspace 0 1 int_number of Inl e \<Rightarrow> Inl e
         | Inr unew \<Rightarrow> Inr (int_number, kinds_fill, unew)))))"

definition SmoothContour_init ::
  "('r, 'cs, 'z) pyplot_scheme \<Rightarrow> nat \<Rightarrow> pyval list \<Rightarrow> kwargs \<Rightarrow> 'r world
     \<Rightarrow> (py_error + 'cs SmoothContour) \<times> 'r world" where
  "SmoothContour_init lib ax args kwargs w =
     (let (smooth_v, kw1) = dict_pop kwargs ''smooth'' (PInt 0);
          (k_v, kw2) = dict_pop kw1 ''k'' (PInt 3);
          (int_number_v, kw3) = dict_pop kw2 ''int_number'' (PInt 100)
      in case init_arrays int_number_v of
           Inl e \<Rightarrow> (Inl e, w)
         | Inr (int_number, kinds_fill, unew) \<Rightarrow>
             (case ContourSet_init lib ax args kw3 w of
                (Inl e, w') \<Rightarrow> (Inl e, w')
              | (Inr base, w') \<Rightarrow>
                  (Inr \<lparr>self_smooth = smooth_v, self_k = k_v, self_int_number = int_number,
                        self_kinds_fill = kinds_fill, self_unew = unew, self_base = base\<rparr>, w')))"

subsection \<open>\<open>_smooth_segs\<close>\<close>

text \<open>
  The scipy routines, as parameters: \<open>splprep(x, s, k, per)\<close> (the model keeps the
  first component \<open>tck\<close> of its result, as the code does; \<open>s\<close> and \<open>k\<close> are the stored
  \<open>smooth\<close> and \<open>k\<close>, of any type) and \<open>splev(u, tck)\<close>, which returns one array for
  each coordinate. Both may raise.
  \<^verbatim>\<open>
  def _smooth_segs(self,seg,kind,avg=False):
      useg,per=unique_vec(seg)
      if len(useg)>self.k: #check if long enough to smooth
          tck,u=splprep(useg.T,s=self.smooth,k=self.k,per=per)
          seg=np.vstack(splev(self.unew,tck)).T
          if (self.smooth>0) and (avg):
              tck2,u2=splprep(useg[::-1].T,s=self.smooth,k=self.k,per=per)
              seg2=np.vstack(splev(self.unew[::-1],tck2)).T
              seg=np.dstack([seg,seg2]).mean(axis=2)
          if kind is not None:
              kind=self.kinds_fill
      return seg,kind
  \<close>
\<close>

record 'tck scipy =
  splprep :: "real list list \<Rightarrow> pyval \<Rightarrow> pyval \<Rightarrow> nat \<Rightarrow> py_error + 'tck"
  splev :: "real list \<Rightarrow> 'tck \<Rightarrow> py_error + real list list"

text \<open>\<open>np.vstack(splev(u, tck)).T\<close> for the spline fitted to the points \<open>pts\<close>.\<close>

definition spline_points ::
  "'tck scipy \<Rightarrow> real list list \<Rightarrow> pyval \<Rightarrow> pyval \<Rightarrow> nat \<Rightarrow> real list
     \<Rightarrow> py_error + real list list" where
  "spline_points sp pts s k per u =
     (case splprep sp (transpose pts) s k per of Inl e \<Rightarrow> Inl e | Inr tck \<Rightarrow>
      (case splev sp u tck of Inl e \<Rightarrow> Inl e | Inr coords \<Rightarrow>
       (case np_vstack coords of Inl e \<Rightarrow> Inl e | Inr m \<Rightarrow> Inr (transpose m))))"

definition smooth_segs ::
  "(nat list \<Rightarrow> nat list) \<Rightarrow> 'tck scipy \<Rightarrow> ('cs, 'z) SmoothContour_scheme
     \<Rightarrow> real list list \<Rightarrow> nat list option \<Rightarrow> bool
     \<Rightarrow> py_error + (real list list \<times> nat list option)" where
  "smooth_segs perm sp self seg kind avg =
     (case unique_vec perm seg of Inl e \<Rightarrow> Inl e | Inr (useg, per) \<Rightarrow>
      (case int_gt (int (length useg)) (self_k self) of Inl e \<Rightarrow> Inl e | Inr long \<Rightarrow>
        if long
        then
          (case spline_points sp useg (self_smooth self) (self_k self) per (self_unew self) of
             Inl e \<Rightarrow> Inl e
           | Inr seg1 \<Rightarrow>
              (case gt_int (self_smooth self) 0 of Inl e \<Rightarrow> Inl e | Inr positive \<Rightarrow>
               (case (if positive \<and> avg
                      then (case spline_points sp (rev useg) (self_smooth self) (self_k self) per
                                   (rev (self_unew self)) of
                              Inl e \<Rightarrow> Inl e
                            | Inr seg2 \<Rightarrow> dstack_mean seg1 seg2)
                      else Inr seg1) of
                  Inl e \<Rightarrow> Inl e
                | Inr seg' \<Rightarrow>
                    Inr (seg', if kind \<noteq> None then Some (self_kinds_fill self) else kind))))
        else Inr (seg, kind)))"

subsection \<open>\<open>_get_allsegs_and_allkinds\<close>\<close>

text \<open>
  The tracer \<open>self.Cntr.trace\<close> returns a Python list \<open>nlist\<close>: the vertex arrays of
  the segments, then as many arrays of path codes. An entry of such a list is a vertex
  array, a code array or \<open>None\<close>.
\<close>

datatype ndarray = Vertices "real list list" | Codes "nat list" | NoneArray

text \<open>
  What the method reads of the object besides the smoothing attributes: \<open>self.filled\<close>,
  \<open>self.levels\<close>, \<open>self.nchunk\<close>, the result of \<open>self._get_lowers_and_uppers()\<close> and
  the two ways the tracer is called, \<open>trace(level)\<close> and
  \<open>trace(level, level_upper, nchunk=...)\<close>.
\<close>

record contour_state =
  self_filled :: bool
  self_levels :: "real list"
  self_nchunk :: int
  get_lowers_and_uppers :: "py_error + (real list \<times> real list)"
  trace_line :: "real \<Rightarrow> py_error + ndarray list"
  trace_filled :: "real \<Rightarrow> real \<Rightarrow> int \<Rightarrow> py_error + ndarray list"

text \<open>
  The rows that \<open>unique_vec\<close> iterates over: \<open>tuple(i)\<close> raises on the entries of a
  one-dimensional array, and on \<open>None\<close> the iteration itself raises.
\<close>

fun rows_of :: "ndarray \<Rightarrow> py_error + real list list" where
  "rows_of (Vertices v) = Inr v"
| "rows_of (Codes []) = Inr []"
| "rows_of (Codes (c # cs)) = Inl TypeError"
| "rows_of NoneArray = Inl TypeError"

text \<open>
  The codes of an entry of \<open>kinds\<close>; an entry that is not a code array is \<open>TypeError\<close>
  (the tracer returns code arrays there).
\<close>

fun codes_of :: "ndarray \<Rightarrow> py_error + nat list" where
  "codes_of (Codes c) = Inr c"
| "codes_of _ = Inl TypeError"

fun kind_entry :: "nat list option \<Rightarrow> ndarray" where
  "kind_entry None = NoneArray"
| "kind_entry (Some c) = Codes c"

text \<open>\<open>np.append(kinds_tmp, k)\<close> on code arrays.\<close>

fun np_append :: "nat list option \<Rightarrow> nat list option \<Rightarrow> py_error + nat list option" where
  "np_append (Some a) (Some b) = Inr (Some (a @ b))"
| "np_append _ _ = Inl TypeError"

text \<open>
  The unfilled branch, one level:
  \<^verbatim>\<open>
  kinds=None
  for i in range(len(segs)): #smooth each contour
      segs[i],kinds=self._smooth_segs(segs[i],kinds,avg=True)
  \<close>
\<close>

fun smooth_line_segs ::
  "(nat list \<Rightarrow> nat list) \<Rightarrow> 'tck scipy \<Rightarrow> ('cs, 'z) SmoothContour_scheme
     \<Rightarrow> ndarray list \<Rightarrow> nat list option \<Rightarrow> py_error + (ndarray list \<times> nat list option)" where
  "smooth_line_segs perm sp self [] kinds = Inr ([], kinds)"
| "smooth_line_segs perm sp self (a # segs) kinds =
     (case rows_of a of Inl e \<Rightarrow> Inl e | Inr seg \<Rightarrow>
      (case smooth_segs perm sp self seg kinds True of Inl e \<Rightarrow> Inl e | Inr (s, kinds') \<Rightarrow>
       (case smooth_line_segs perm sp self segs kinds' of Inl e \<Rightarrow> Inl e
        | Inr (ss, kinds'') \<Rightarrow> Inr (Vertices s # ss, kinds''))))"

text \<open>
  \<^verbatim>\<open>
  for level in self.levels:
      nlist = self.Cntr.trace(level)
      nseg = len(nlist) // 2
      segs = nlist[:nseg]
      ...
      allsegs.append(segs)
  \<close>
\<close>

fun line_levels ::
  "(nat list \<Rightarrow> nat list) \<Rightarrow> 'tck scipy \<Rightarrow> ('cs, 'z) SmoothContour_scheme
     \<Rightarrow> (real \<Rightarrow> py_error + ndarray list) \<Rightarrow> real list \<Rightarrow> py_error + ndarray list list" where
  "line_levels perm sp self trace [] = Inr []"
| "line_levels perm sp self trace (level # levels) =
     (case trace level of Inl e \<Rightarrow> Inl e | Inr nlist \<Rightarrow>
      (let nseg = length nlist div 2; segs = take nseg nlist
       in case smooth_line_segs perm sp self segs None of Inl e \<Rightarrow> Inl e | Inr (segs', kinds) \<Rightarrow>
          (case line_levels perm sp self trace levels of Inl e \<Rightarrow> Inl e
           | Inr allsegs \<Rightarrow> Inr (segs' # allsegs))))"

text \<open>
  The filled branch, the loop over the breaks of one path (\<open>ndx\<close> holds the indices
  still to visit, \<open>ndx[j-1]\<close> first; \<open>tmp\<close> is \<open>None\<close> until the pass \<open>j == 1\<close> has set
  \<open>segs_tmp\<close> and \<open>kinds_tmp\<close>):
  \<^verbatim>\<open>
  for j in range(1,len(ndx)):
      current_seg=segs[i][ndx[j-1]:ndx[j]]
      current_kind=kinds[i][ndx[j-1]:ndx[j]]
      s,k=self._smooth_segs(current_seg,current_kind,avg=True)
      if j==1:
          segs_tmp=s
          kinds_tmp=k
      else:
          segs_tmp=np.vstack([segs_tmp,s])
          kinds_tmp=np.append(kinds_tmp,k)
  \<close>
\<close>

fun smooth_breaks ::
  "(nat list \<Rightarrow> nat list) \<Rightarrow> 'tck scipy \<Rightarrow> ('cs, 'z) SmoothContour_scheme
     \<Rightarrow> real list list \<Rightarrow> nat list \<Rightarrow> nat list
     \<Rightarrow> (real list list \<times> nat list option) option
     \<Rightarrow> py_error + (real list list \<times> nat list option) option" where
  "smooth_breaks perm sp self seg kind (lo # hi # ndx) tmp =
     (case smooth_segs perm sp self (py_slice seg lo hi) (Some (py_slice kind lo hi)) True of
        Inl e \<Rightarrow> Inl e
      | Inr (s, k) \<Rightarrow>
          (case tmp of
             None \<Rightarrow> smooth_breaks perm sp self seg kind (hi # ndx) (Some (s, k))
           | Some (segs_tmp, kinds_tmp) \<Rightarrow>
               (case np_vstack2 segs_tmp s of Inl e \<Rightarrow> Inl e | Inr segs_tmp' \<Rightarrow>
                (case np_append kinds_tmp k of Inl e \<Rightarrow> Inl e | Inr kinds_tmp' \<Rightarrow>
                   smooth_breaks perm sp self seg kind (hi # ndx) (Some (segs_tmp', kinds_tmp'))))))"
| "smooth_breaks perm sp self seg kind ndx tmp = Inr tmp"

text \<open>
  One path of the filled branch:
  \<^verbatim>\<open>
  if (kinds[i]==1).sum()>1: #check for breaks in the path (where kinds==1)
      ndx,=np.where(kinds[i]==1) #find the breaks
      ndx=np.append(ndx,len(kinds[i]))
      for j in range(1,len(ndx)): ...
      segs[i]=segs_tmp
      kinds[i]=kinds_tmp
  else:
      segs[i],kinds[i]=self._smooth_segs(segs[i],kinds[i])
  \<close>
\<close>

definition smooth_path ::
  "(nat list \<Rightarrow> nat list) \<Rightarrow> 'tck scipy \<Rightarrow> ('cs, 'z) SmoothContour_scheme
     \<Rightarrow> ndarray \<Rightarrow> ndarray \<Rightarrow> py_error + (ndarray \<times> ndarray)" where
  "smooth_path perm sp self a c =
     (case codes_of c of Inl e \<Rightarrow> Inl e | Inr kind \<Rightarrow>
        if length (filter (\<lambda>v. v = 1) kind) > 1
        then
          (case rows_of a of Inl e \<Rightarrow> Inl e | Inr seg \<Rightarrow>
           (case smooth_breaks perm sp self seg kind (np_where_eq1 kind @ [length kind]) None of
              Inl e \<Rightarrow> Inl e
            | Inr None \<Rightarrow> Inl UnboundLocalError
            | Inr (Some (segs_tmp, kinds_tmp)) \<Rightarrow> Inr (Vertices segs_tmp, kind_entry kinds_tmp)))
        else
          (case rows_of a of Inl e \<Rightarrow> Inl e | Inr seg \<Rightarrow>
           (case smooth_segs perm sp self seg (Some kind) False of Inl e \<Rightarrow> Inl e
            | Inr (s, k) \<Rightarrow> Inr (Vertices s, kind_entry k))))"

text \<open>The loop over the paths of one level: \<open>segs[i]\<close> and \<open>kinds[i]\<close> side by side.\<close>

fun smooth_paths ::
  "(nat list \<Rightarrow> nat list) \<Rightarrow> 'tck scipy \<Rightarrow> ('cs, 'z) SmoothContour_scheme
     \<Rightarrow> ndarray list \<Rightarrow> ndarray list \<Rightarrow> py_error + (ndarray list \<times> ndarray list)" where
  "smooth_paths perm sp self (a # segs) (c # kinds) =
     (case smooth_path perm sp self a c of Inl e \<Rightarrow> Inl e | Inr (a', c') \<Rightarrow>
      (case smooth_paths perm sp self segs kinds of Inl e \<Rightarrow> Inl e
       | Inr (segs', kinds') \<Rightarrow> Inr (a' # segs', c' # kinds')))"
| "smooth_paths perm sp self [] kinds = Inr ([], kinds)"
| "smooth_paths perm sp self (a # segs) [] = Inl IndexError"

text \<open>
  \<^verbatim>\<open>
  for level, level_upper in zip(lowers, uppers):
      nlist = self.Cntr.trace(level, level_upper, nchunk=self.nchunk)
      nseg = len(nlist) // 2
      segs = nlist[:nseg]
      kinds = nlist[nseg:]
      for i in range(len(segs)): ...
      allsegs.append(segs)
      allkinds.append(kinds)
  \<close>
\<close>

fun filled_levels ::
  "(nat list \<Rightarrow> nat list) \<Rightarrow> 'tck scipy \<Rightarrow> ('cs, 'z) SmoothContour_scheme
     \<Rightarrow> (real \<Rightarrow> real \<Rightarrow> py_error + ndarray list) \<Rightarrow> (real \<times> real) list
     \<Rightarrow> py_error + (ndarray list list \<times> ndarray list list)" where
  "filled_levels perm sp self trace [] = Inr ([], [])"
| "filled_levels perm sp self trace ((level, level_upper) # levels) =
     (case trace level level_upper of Inl e \<Rightarrow> Inl e | Inr nlist \<Rightarrow>
      (let nseg = length nlist div 2; segs = take nseg nlist; kinds = drop nseg nlist
       in case smooth_paths perm sp self segs kinds of Inl e \<Rightarrow> Inl e | Inr (segs', kinds') \<Rightarrow>
          (case filled_levels perm sp self trace levels of Inl e \<Rightarrow> Inl e
           | Inr (allsegs, allkinds) \<Rightarrow> Inr (segs' # allsegs, kinds' # allkinds))))"

definition get_allsegs_and_allkinds ::
  "(nat list \<Rightarrow> nat list) \<Rightarrow> 'tck scipy \<Rightarrow> ('cs, 'z) SmoothContour_scheme \<Rightarrow> contour_state
     \<Rightarrow> py_error + (ndarray list list \<times> ndarray list list option)" where
  "get_allsegs_and_allkinds perm sp self cs =
     (if self_filled cs
      then
        (case get_lowers_and_uppers cs of Inl e \<Rightarrow> Inl e | Inr (lowers, uppers) \<Rightarrow>
         (case filled_levels perm sp self (\<lambda>l u. trace_filled cs l u (self_nchunk cs))
                 (zip lowers uppers) of
            Inl e \<Rightarrow> Inl e
          | Inr (allsegs, allkinds) \<Rightarrow> Inr (allsegs, Some allkinds)))
      else
        (case line_levels perm sp self (trace_line cs) (self_levels cs) of Inl e \<Rightarrow> Inl e
         | Inr allsegs \<Rightarrow> Inr (allsegs, None)))"

subsection \<open>\<open>smooth_contour\<close> and \<open>smooth_contourf\<close>\<close>

text \<open>
  The two functions have one body, up to the value stored under \<open>'filled'\<close>:
  \<^verbatim>\<open>
  def smooth_contour(*args,**kwargs):
      kwargs['filled'] = False
      ax=kwargs.pop('ax',pyp.gca())
      washold = ax.ishold()
      hold = kwargs.pop('hold', None)
      if hold is not None:
          ax.hold(hold)
      try:
          ret = SmoothContour(ax,*args,**kwargs)
          pyp.draw_if_interactive()
      finally:
          ax.hold(washold)
      if ret._A is not None: pyp.sci(ret)
      return ret
  \<close>
  The body of the \<open>try\<close> is \<open>try_body\<close>; the \<open>finally\<close> clause runs on both of its
  outcomes, and an exception of the body is raised again after it (an exception of the
  \<open>finally\<close> clause itself takes its place).
\<close>

definition try_body ::
  "('r, 'cs, 'z) pyplot_scheme \<Rightarrow> nat \<Rightarrow> pyval list \<Rightarrow> kwargs \<Rightarrow> 'r world
     \<Rightarrow> (py_error + 'cs SmoothContour) \<times> 'r world" where
  "try_body lib ax args kwargs w =
     (case SmoothContour_init lib ax args kwargs w of
        (Inl e, w') \<Rightarrow> (Inl e, w')
      | (Inr ret, w') \<Rightarrow>
          (case draw_if_interactive lib w' of
             (Inl e, w'') \<Rightarrow> (Inl e, w'')
           | (Inr u, w'') \<Rightarrow> (Inr ret, w'')))"

text \<open>
  What follows the body of the \<open>try\<close>: the \<open>finally\<close> clause \<open>ax.hold(washold)\<close>, then
  either the exception again or \<open>if ret._A is not None: pyp.sci(ret)\<close> and the return.
\<close>

definition after_try ::
  "('r, 'cs, 'z) pyplot_scheme \<Rightarrow> nat \<Rightarrow> pyval
     \<Rightarrow> (py_error + 'cs SmoothContour) \<times> 'r world
     \<Rightarrow> (py_error + 'cs SmoothContour) \<times> 'r world" where
  "after_try lib ax washold r =
     (case r of (res, w3) \<Rightarrow>
        (case hold w3 ax washold of
           Inl e \<Rightarrow> (Inl e, w3)
         | Inr w4 \<Rightarrow>
             (case res of
                Inl e \<Rightarrow> (Inl e, w4)
              | Inr ret \<Rightarrow>
                  if has_A lib (self_base ret)
                  then (case sci lib (self_base ret) (figure w4) of
                          (Inl e, fig') \<Rightarrow> (Inl e, w4\<lparr>figure := fig'\<rparr>)
                        | (Inr u, fig') \<Rightarrow> (Inr ret, w4\<lparr>figure := fig'\<rparr>))
                  else (Inr ret, w4))))"

definition smooth_contour_body ::
  "bool \<Rightarrow> ('r, 'cs, 'z) pyplot_scheme \<Rightarrow> pyval list \<Rightarrow> kwargs \<Rightarrow> 'r world
     \<Rightarrow> (py_error + 'cs SmoothContour) \<times> 'r world" where
  "smooth_contour_body fl lib args kwargs w =
     (let kw0 = kwargs(''filled'' \<mapsto> PBool fl);
          (cur, fig) = gca lib (figure w);
          w1 = w\<lparr>figure := fig\<rparr>;
          (ax_v, kw1) = dict_pop kw0 ''ax'' (PAxes cur)
      in case as_axes ax_v of Inl e \<Rightarrow> (Inl e, w1) | Inr ax \<Rightarrow>
         (let washold = ishold w1 ax;
              (hold_v, kw2) = dict_pop kw1 ''hold'' PNone
          in case (if hold_v \<noteq> PNone then hold w1 ax hold_v else Inr w1) of
               Inl e \<Rightarrow> (Inl e, w1)
             | Inr w2 \<Rightarrow> after_try lib ax washold (try_body lib ax args kw2 w2)))"

definition smooth_contour ::
  "('r, 'cs, 'z) pyplot_scheme \<Rightarrow> pyval list \<Rightarrow> kwargs \<Rightarrow> 'r world
     \<Rightarrow> (py_error + 'cs SmoothContour) \<times> 'r world" where
  "smooth_contour lib args kwargs w = smooth_contour_body False lib args kwargs w"

definition smooth_contourf ::
  "('r, 'cs, 'z) pyplot_scheme \<Rightarrow> pyval list \<Rightarrow> kwargs \<Rightarrow> 'r world
     \<Rightarrow> (py_error + 'cs SmoothContour) \<times> 'r world" where
  "smooth_contourf lib args kwargs w = smooth_contour_body True lib args kwargs w"

section \<open>\<open>scatter_contour\<close>\<close>

subsection \<open>The histogram\<close>

text \<open>
  \<open>np.histogram2d(x, y, **histogram2d_args)\<close> returns an array \<open>H\<close> and the bin edges
  \<open>xbins\<close>, \<open>ybins\<close>. The routine is a parameter of the model (\<open>np_histogram2d\<close>
  below): the keywords that \<open>scatter_contour\<close> forwards choose the edges (\<open>bins\<close>,
  \<open>range\<close>) and what \<open>H\<close> holds (counts of points, sums of \<open>weights\<close>, either of
  them \<open>normed\<close>).

  How numpy assigns values to bins: a bin holds the values from its left edge up to, and
  without, its right edge, and the last bin holds its right edge too. For a call whose
  keywords choose the edges only, \<open>H[i][j]\<close> is the number of points whose \<open>x\<close> is in
  bin \<open>i\<close> of \<open>xbins\<close> and whose \<open>y\<close> is in bin \<open>j\<close> of \<open>ybins\<close>
  (\<open>histogram_counts\<close>); \<open>count_histogram2d\<close> is the routine for such calls, given
  the edges that numpy takes.
\<close>

definition in_bin :: "real list \<Rightarrow> nat \<Rightarrow> real \<Rightarrow> bool" where
  "in_bin edges i v =
     (Suc i < length edges \<and> edges ! i \<le> v \<and>
      (v < edges ! Suc i \<or> (Suc (Suc i) = length edges \<and> v = edges ! Suc i)))"

definition histogram_counts ::
  "real list \<Rightarrow> real list \<Rightarrow> real list \<Rightarrow> real list \<Rightarrow> real list list" where
  "histogram_counts x y xbins ybins =
     map (\<lambda>i. map (\<lambda>j. real (length (filter (\<lambda>(a, b). in_bin xbins i a \<and> in_bin ybins j b)
                                             (zip x y))))
                 [0..<length ybins - 1])
         [0..<length xbins - 1]"

definition count_histogram2d ::
  "(kwargs \<Rightarrow> real list \<Rightarrow> real list \<Rightarrow> py_error + (real list \<times> real list))
     \<Rightarrow> real list \<Rightarrow> real list \<Rightarrow> kwargs
     \<Rightarrow> py_error + (real list list \<times> real list \<times> real list)" where
  "count_histogram2d edges x y histogram2d_args =
     (if length x \<noteq> length y then Inl ValueError
      else case edges histogram2d_args x y of
             Inl e \<Rightarrow> Inl e
           | Inr (xbins, ybins) \<Rightarrow> Inr (histogram_counts x y xbins ybins, xbins, ybins))"

text \<open>
  The library routines that \<open>scatter_contour.py\<close> calls beyond those of
  \<open>smooth_contour.py\<close>: \<open>np.histogram2d\<close>, \<open>np.log10\<close> on one
  number (the code applies it entry by entry), \<open>ax.contour\<close>,
  \<open>ax.contourf\<close>, the attribute \<open>allsegs\<close> of a contour set,
  \<open>Path(poly).contains_points(X)\<close> (with its import), \<open>nx.points_inside_poly(X, poly)\<close>
  (with its import) and \<open>ax.plot\<close>.
\<close>

record ('r, 'cs, 'pl) libraries = "('r, 'cs) pyplot" +
  np_histogram2d ::
    "real list \<Rightarrow> real list \<Rightarrow> kwargs \<Rightarrow> py_error + (real list list \<times> real list \<times> real list)"
  np_log10 :: "real \<Rightarrow> real"
  ax_contour :: "nat \<Rightarrow> pyval list \<Rightarrow> kwargs \<Rightarrow> 'r world \<Rightarrow> (py_error + 'cs) \<times> 'r world"
  ax_contourf :: "nat \<Rightarrow> pyval list \<Rightarrow> kwargs \<Rightarrow> 'r world \<Rightarrow> (py_error + 'cs) \<times> 'r world"
  allsegs_of :: "'cs \<Rightarrow> real list list list list"
  path_contains_points :: "real list list \<Rightarrow> real list list \<Rightarrow> py_error + bool list"
  nx_points_inside_poly :: "real list list \<Rightarrow> real list list \<Rightarrow> py_error + bool list"
  ax_plot :: "nat \<Rightarrow> real list \<Rightarrow> real list \<Rightarrow> kwargs \<Rightarrow> 'r world \<Rightarrow> (py_error + 'pl) \<times> 'r world"

subsection \<open>The arrays that are contoured\<close>

text \<open>\<open>H.max()\<close> and \<open>np.argmin(levels)\<close> (the first index of the least entry).\<close>

definition np_max :: "real list list \<Rightarrow> py_error + real" where
  "np_max H = (case concat H of [] \<Rightarrow> Inl ValueError | v # vs \<Rightarrow> Inr (fold max vs v))"

fun argmin_from :: "real list \<Rightarrow> nat \<Rightarrow> nat \<Rightarrow> real \<Rightarrow> nat" where
  "argmin_from [] i best_i best = best_i"
| "argmin_from (v # vs) i best_i best =
     (if v < best then argmin_from vs (Suc i) i v else argmin_from vs (Suc i) best_i best)"

definition np_argmin :: "real list \<Rightarrow> py_error + nat" where
  "np_argmin levels = (case levels of [] \<Rightarrow> Inl ValueError | v # vs \<Rightarrow> Inr (argmin_from vs 1 0 v))"

text \<open>
  The argument \<open>levels\<close>: a number of levels or an array of levels. An array of one
  entry has \<open>size == 1\<close> too, and its entry is then the number of levels (an entry that
  is not a whole number is \<open>TypeError\<close>).
\<close>

datatype levels_arg = NLevels int | LevelArray "real list"

definition make_levels :: "levels_arg \<Rightarrow> real \<Rightarrow> real list list \<Rightarrow> py_error + real list" where
  "make_levels levels threshold H =
     (case levels of
        NLevels n \<Rightarrow>
          (case np_max H of Inl e \<Rightarrow> Inl e | Inr hmax \<Rightarrow> np_linspace threshold hmax n)
      | LevelArray [v] \<Rightarrow>
          (case np_max H of Inl e \<Rightarrow> Inl e
           | Inr hmax \<Rightarrow>
               if v = of_int (floor v) then np_linspace threshold hmax (floor v) else Inl TypeError)
      | LevelArray ls \<Rightarrow> Inr ls)"

text \<open>
  \<^verbatim>\<open>
  H, xbins, ybins = np.histogram2d(x, y, **histogram2d_args)
  if log_counts:
      H = np.log10(1 + H)
      threshold = np.log10(1 + threshold)
  levels = np.asarray(levels)
  if levels.size == 1:
      levels = np.linspace(threshold, H.max(), levels)
  extent = [xbins[0], xbins[-1], ybins[0], ybins[-1]]
  i_min = np.argmin(levels)
  \<close>
\<close>

record density =
  den_H :: "real list list"
  den_xbins :: "real list"
  den_ybins :: "real list"
  den_threshold :: real
  den_levels :: "real list"
  den_extent :: "real list"
  den_i_min :: nat

definition scatter_density ::
  "('r, 'cs, 'pl, 'z) libraries_scheme \<Rightarrow> real list \<Rightarrow> real list \<Rightarrow> levels_arg \<Rightarrow> real \<Rightarrow> bool
     \<Rightarrow> kwargs \<Rightarrow> py_error + density" where
  "scatter_density lib x y levels threshold log_counts histogram2d_args =
     (case np_histogram2d lib x y histogram2d_args of
        Inl e \<Rightarrow> Inl e
      | Inr (H0, xbins, ybins) \<Rightarrow>
          (let H = (if log_counts then map (map (\<lambda>c. np_log10 lib (1 + c))) H0 else H0);
               threshold' = (if log_counts then np_log10 lib (1 + threshold) else threshold)
           in case make_levels levels threshold' H of
                Inl e \<Rightarrow> Inl e
              | Inr levels' \<Rightarrow>
                  if xbins = [] \<or> ybins = [] then Inl IndexError
                  else (case np_argmin levels' of
                          Inl e \<Rightarrow> Inl e
                        | Inr i_min \<Rightarrow>
                            Inr \<lparr>den_H = H, den_xbins = xbins, den_ybins = ybins,
                                 den_threshold = threshold', den_levels = levels',
                                 den_extent = [hd xbins, last xbins, hd ybins, last ybins],
                                 den_i_min = i_min\<rparr>)))"

subsection \<open>The points of the sparse bins\<close>

text \<open>
  \<^verbatim>\<open>
  points_outside = np.zeros_like(x,dtype=np.bool)
  wx,wy = np.where((H<threshold)&(H>0))
  for i,j in zip(wx,wy):
      idx = (x>=xbins[i])&(x<xbins[i+1])&(y>=ybins[j])&(y<ybins[j+1])
      points_outside = points_outside | idx
  X = np.vstack([x[points_outside],y[points_outside]]).T
  \<close>
  \<open>np.where\<close> lists the index pairs row by row.
\<close>

definition sparse_bins :: "real list list \<Rightarrow> real \<Rightarrow> (nat \<times> nat) list" where
  "sparse_bins H threshold =
     concat (map (\<lambda>i. map (\<lambda>j. (i, j))
                            (filter (\<lambda>j. H ! i ! j < threshold \<and> H ! i ! j > 0) [0..<length (H ! i)]))
                 [0..<length H])"

definition bin_mask ::
  "real list \<Rightarrow> real list \<Rightarrow> real list \<Rightarrow> real list \<Rightarrow> nat \<times> nat \<Rightarrow> bool list" where
  "bin_mask x y xbins ybins ij =
     map (\<lambda>(a, b). a \<ge> xbins ! fst ij \<and> a < xbins ! Suc (fst ij)
                      \<and> b \<ge> ybins ! snd ij \<and> b < ybins ! Suc (snd ij))
         (zip x y)"

fun mask_loop ::
  "real list \<Rightarrow> real list \<Rightarrow> real list \<Rightarrow> real list \<Rightarrow> (nat \<times> nat) list \<Rightarrow> bool list
     \<Rightarrow> bool list" where
  "mask_loop x y xbins ybins [] points_outside = points_outside"
| "mask_loop x y xbins ybins (ij # rest) points_outside =
     mask_loop x y xbins ybins rest
       (map (\<lambda>(p, q). p \<or> q) (zip points_outside (bin_mask x y xbins ybins ij)))"

definition points_outside_mask :: "real list \<Rightarrow> real list \<Rightarrow> density \<Rightarrow> bool list" where
  "points_outside_mask x y d =
     mask_loop x y (den_xbins d) (den_ybins d) (sparse_bins (den_H d) (den_threshold d))
       (replicate (length x) False)"

text \<open>\<open>a[mask]\<close>: the entries of \<open>a\<close> where the mask holds.\<close>

definition select :: "'a list \<Rightarrow> bool list \<Rightarrow> 'a list" where
  "select a msk = map fst (filter snd (zip a msk))"

definition outside_points :: "real list \<Rightarrow> real list \<Rightarrow> density \<Rightarrow> real list list" where
  "outside_points x y d =
     (let points_outside = points_outside_mask x y d
      in map (\<lambda>(a, b). [a, b]) (zip (select x points_outside) (select y points_outside)))"

subsection \<open>The drawing\<close>

text \<open>
  A call \<open>f(..., name=value, **extra)\<close>: a name given both ways is \<open>TypeError\<close>.
\<close>

definition merge_kwargs :: "(string \<times> pyval) list \<Rightarrow> kwargs \<Rightarrow> py_error + kwargs" where
  "merge_kwargs named extra =
     (if list_ex (\<lambda>(k, v). extra k \<noteq> None) named then Inl TypeError
      else Inr (fold (\<lambda>(k, v) m. m(k \<mapsto> v)) named extra))"

text \<open>
  The contour set that \<open>scatter_contour\<close> gets back: matplotlib's from
  \<open>ax.contour\<close> and \<open>ax.contourf\<close>, a \<open>SmoothContour\<close> from \<open>smooth_contour\<close> and
  \<open>smooth_contourf\<close>.
  \<^verbatim>\<open>
  if smooth is not None:
      cont = smooth_contour
      contf = smooth_contourf
      contour_args['smooth'] = smooth
      contour_args['ax']=ax
  else:
      cont=ax.contour
      contf=ax.contourf
  \<close>
\<close>

datatype 'cs contours = Quad 'cs | Smooth "'cs SmoothContour"

definition contours_allsegs ::
  "('r, 'cs, 'pl, 'z) libraries_scheme \<Rightarrow> 'cs contours \<Rightarrow> real list list list list" where
  "contours_allsegs lib c =
     (case c of Quad q \<Rightarrow> allsegs_of lib q | Smooth sc \<Rightarrow> allsegs_of lib (self_base sc))"

definition cont ::
  "('r, 'cs, 'pl, 'z) libraries_scheme \<Rightarrow> real option \<Rightarrow> nat \<Rightarrow> pyval list \<Rightarrow> kwargs \<Rightarrow> 'r world
     \<Rightarrow> (py_error + 'cs contours) \<times> 'r world" where
  "cont lib smooth ax args kw w =
     (case smooth of
        None \<Rightarrow> (case ax_contour lib ax args kw w of
                   (Inl e, w') \<Rightarrow> (Inl e, w') | (Inr c, w') \<Rightarrow> (Inr (Quad c), w'))
      | Some s \<Rightarrow> (case smooth_contour lib args kw w of
                     (Inl e, w') \<Rightarrow> (Inl e, w') | (Inr c, w') \<Rightarrow> (Inr (Smooth c), w')))"

definition contf ::
  "('r, 'cs, 'pl, 'z) libraries_scheme \<Rightarrow> real option \<Rightarrow> nat \<Rightarrow> pyval list \<Rightarrow> kwargs \<Rightarrow> 'r world
     \<Rightarrow> (py_error + 'cs contours) \<times> 'r world" where
  "contf lib smooth ax args kw w =
     (case smooth of
        None \<Rightarrow> (case ax_contourf lib ax args kw w of
                   (Inl e, w') \<Rightarrow> (Inl e, w') | (Inr c, w') \<Rightarrow> (Inr (Quad c), w'))
      | Some s \<Rightarrow> (case smooth_contourf lib args kw w of
                     (Inl e, w') \<Rightarrow> (Inl e, w') | (Inr c, w') \<Rightarrow> (Inr (Smooth c), w')))"

text \<open>
  \<^verbatim>\<open>
  try:
      # this works in newer matplotlib versions
      from matplotlib.path import Path
      points_inside = Path(outer_poly).contains_points(X)
  except:
      # this works in older matplotlib versions
      import matplotlib.nxutils as nx
      points_inside = nx.points_inside_poly(X, outer_poly)
  \<close>
\<close>

definition points_inside ::
  "('r, 'cs, 'pl, 'z) libraries_scheme \<Rightarrow> real list list \<Rightarrow> real list list
     \<Rightarrow> py_error + bool list" where
  "points_inside lib outer_poly X =
     (case path_contains_points lib outer_poly X of
        Inr inside \<Rightarrow> Inr inside
      | Inl e \<Rightarrow> nx_points_inside_poly lib X outer_poly)"

text \<open>\<open>X[~points_inside]\<close>: a mask of another length than \<open>X\<close> raises.\<close>

definition select_not :: "'a list \<Rightarrow> bool list \<Rightarrow> py_error + 'a list" where
  "select_not X inside =
     (if length inside = length X then Inr (select X (map Not inside)) else Inl IndexError)"

text \<open>
  \<^verbatim>\<open>
  if len(outline.allsegs[0]) > 0:
      outer_poly = outline.allsegs[0][0]
      ...
      Xplot = X[~points_inside]
  else:
      Xplot = X
  \<close>
\<close>

definition scatter_Xplot ::
  "('r, 'cs, 'pl, 'z) libraries_scheme \<Rightarrow> real list list list list \<Rightarrow> real list list
     \<Rightarrow> py_error + real list list" where
  "scatter_Xplot lib outline_allsegs X =
     (case outline_allsegs of
        [] \<Rightarrow> Inl IndexError
      | segs0 # _ \<Rightarrow>
          (case segs0 of
             [] \<Rightarrow> Inr X
           | outer_poly # _ \<Rightarrow>
               (case points_inside lib outer_poly X of
                  Inl e \<Rightarrow> Inl e
                | Inr inside \<Rightarrow> select_not X inside)))"

text \<open>
  The function, from the first library call on. The defaults of the signature are the
  caller's: \<open>levels=10\<close>, \<open>threshold=100\<close>, \<open>log_counts=False\<close>,
  \<open>filled_contour=True\<close>, and \<open>None\<close> for the rest.
  \<^verbatim>\<open>
  default_plot_args = dict(marker='.', linestyle='none')
  if plot_args is not None:
      default_plot_args.update(plot_args)
  plot_args = default_plot_args
  if histogram2d_args is None:
      histogram2d_args = {}
  if contour_args is None:
      contour_args = {}
  if ax is None:
      ax = plt.gca()
  ...
  outline = cont(H.T, levels[i_min:i_min + 1],
                       linewidths=0, extent=extent)
  if filled_contour:
      contours = contf(H.T, levels, extent=extent, **contour_args)
  else:
      contours = cont(H.T, levels, extent=extent, **contour_args)
  ...
  points = ax.plot(Xplot[:,0], Xplot[:,1], zorder=1, **plot_args)
  return points, contours
  \<close>
\<close>

definition default_plot_args :: kwargs where
  "default_plot_args = [''marker'' \<mapsto> PStr ''.'', ''linestyle'' \<mapsto> PStr ''none'']"

text \<open>
  The body in parts: \<open>resolve_ax\<close> is \<open>if ax is None: ax = plt.gca()\<close>;
  \<open>outline_call\<close> and \<open>contours_call\<close> are the two contour calls;
  \<open>scatter_points\<close> is the part after them, up to \<open>ax.plot\<close>; \<open>scatter_draw\<close> is
  the body from the choice of \<open>cont\<close> and \<open>contf\<close> on, given the values \<open>d\<close> computed
  before.
\<close>

definition resolve_ax ::
  "('r, 'cs, 'pl, 'z) libraries_scheme \<Rightarrow> nat option \<Rightarrow> 'r world \<Rightarrow> nat \<times> 'r world" where
  "resolve_ax lib ax w =
     (case ax of
        None \<Rightarrow> (case gca lib (figure w) of (cur, fig) \<Rightarrow> (cur, w\<lparr>figure := fig\<rparr>))
      | Some a \<Rightarrow> (a, w))"

definition outline_call ::
  "('r, 'cs, 'pl, 'z) libraries_scheme \<Rightarrow> density \<Rightarrow> real option \<Rightarrow> nat \<Rightarrow> 'r world
     \<Rightarrow> (py_error + 'cs contours) \<times> 'r world" where
  "outline_call lib d smooth ax w =
     cont lib smooth ax
       [PMat (transpose (den_H d)), PArr (py_slice (den_levels d) (den_i_min d) (den_i_min d + 1))]
       [''linewidths'' \<mapsto> PInt 0, ''extent'' \<mapsto> PArr (den_extent d)] w"

definition contours_call ::
  "('r, 'cs, 'pl, 'z) libraries_scheme \<Rightarrow> density \<Rightarrow> kwargs \<Rightarrow> bool \<Rightarrow> real option \<Rightarrow> nat
     \<Rightarrow> 'r world \<Rightarrow> (py_error + 'cs contours) \<times> 'r world" where
  "contours_call lib d kw filled_contour smooth ax w =
     (if filled_contour
      then contf lib smooth ax [PMat (transpose (den_H d)), PArr (den_levels d)] kw w
      else cont lib smooth ax [PMat (transpose (den_H d)), PArr (den_levels d)] kw w)"

text \<open>\<open>contour_args\<close> after \<open>contour_args['smooth'] = smooth\<close> and \<open>contour_args['ax'] = ax\<close>.\<close>

definition contour_kwargs :: "real option \<Rightarrow> nat \<Rightarrow> kwargs \<Rightarrow> kwargs" where
  "contour_kwargs smooth ax contour_args =
     (case smooth of
        None \<Rightarrow> contour_args
      | Some s \<Rightarrow> contour_args(''smooth'' \<mapsto> PFloat s, ''ax'' \<mapsto> PAxes ax))"

definition scatter_points ::
  "('r, 'cs, 'pl, 'z) libraries_scheme \<Rightarrow> real list \<Rightarrow> real list \<Rightarrow> density \<Rightarrow> 'cs contours
     \<Rightarrow> kwargs \<Rightarrow> nat \<Rightarrow> 'r world \<Rightarrow> (py_error + 'pl) \<times> 'r world" where
  "scatter_points lib x y d outline plot_args ax w3 =
     (case scatter_Xplot lib (contours_allsegs lib outline) (outside_points x y d) of
        Inl e \<Rightarrow> (Inl e, w3)
      | Inr Xplot \<Rightarrow>
          (case merge_kwargs [(''zorder'', PInt 1)] plot_args of
             Inl e \<Rightarrow> (Inl e, w3)
           | Inr pkw \<Rightarrow>
               ax_plot lib ax (map (\<lambda>r. r ! 0) Xplot) (map (\<lambda>r. r ! 1) Xplot) pkw w3))"

definition scatter_draw ::
  "('r, 'cs, 'pl, 'z) libraries_scheme \<Rightarrow> real list \<Rightarrow> real list \<Rightarrow> density \<Rightarrow> kwargs \<Rightarrow> kwargs
     \<Rightarrow> bool \<Rightarrow> real option \<Rightarrow> nat \<Rightarrow> 'r world
     \<Rightarrow> (py_error + ('pl \<times> 'cs contours)) \<times> 'r world" where
  "scatter_draw lib x y d plot_args contour_args filled_contour smooth ax w1 =
     (let contour_args' = contour_kwargs smooth ax contour_args
      in case outline_call lib d smooth ax w1 of
           (Inl e, w2) \<Rightarrow> (Inl e, w2)
         | (Inr outline, w2) \<Rightarrow>
        (case merge_kwargs [(''extent'', PArr (den_extent d))] contour_args' of
           Inl e \<Rightarrow> (Inl e, w2)
         | Inr kw \<Rightarrow>
        (case contours_call lib d kw filled_contour smooth ax w2 of
           (Inl e, w3) \<Rightarrow> (Inl e, w3)
         | (Inr contours, w3) \<Rightarrow>
        (case scatter_points lib x y d outline plot_args ax w3 of
           (Inl e, w4) \<Rightarrow> (Inl e, w4)
         | (Inr points, w4) \<Rightarrow> (Inr (points, contours), w4)))))"

definition scatter_contour ::
  "('r, 'cs, 'pl, 'z) libraries_scheme \<Rightarrow> real list \<Rightarrow> real list \<Rightarrow> levels_arg \<Rightarrow> real \<Rightarrow> bool
     \<Rightarrow> kwargs option \<Rightarrow> kwargs option \<Rightarrow> kwargs option \<Rightarrow> bool \<Rightarrow> real option
     \<Rightarrow> nat option \<Rightarrow> 'r world \<Rightarrow> (py_error + ('pl \<times> 'cs contours)) \<times> 'r world" where
  "scatter_contour lib x y levels threshold log_counts histogram2d_args plot_args contour_args
       filled_contour smooth ax w =
     (let plot_args' = (case plot_args of None \<Rightarrow> default_plot_args
                        | Some p \<Rightarrow> default_plot_args ++ p);
          histogram2d_args' = (case histogram2d_args of None \<Rightarrow> Map.empty | Some h \<Rightarrow> h);
          contour_args' = (case contour_args of None \<Rightarrow> Map.empty | Some c \<Rightarrow> c);
          (ax', w1) = resolve_ax lib ax w
      in case scatter_density lib x y levels threshold log_counts histogram2d_args' of
           Inl e \<Rightarrow> (Inl e, w1)
         | Inr d \<Rightarrow>
             scatter_draw lib x y d plot_args' contour_args' filled_contour smooth ax' w1)"

section \<open>Notions used to state the properties\<close>

text \<open>The value a keyword has for the callee: the caller's, or the default.\<close>

definition kw_or :: "kwargs \<Rightarrow> string \<Rightarrow> pyval \<Rightarrow> pyval" where
  "kw_or kwargs key dflt = (case kwargs key of None \<Rightarrow> dflt | Some v \<Rightarrow> v)"

text \<open>The dictionary without the keys of a list.\<close>

definition without_keys :: "kwargs \<Rightarrow> string list \<Rightarrow> kwargs" where
  "without_keys kwargs keys = (\<lambda>key. if key \<in> set keys then None else kwargs key)"

text \<open>
  The state in which \<open>smooth_contour\<close> and \<open>smooth_contourf\<close> enter their \<open>try\<close>:
  after \<open>pyp.gca()\<close> and, when \<open>hold\<close> is given, \<open>ax.hold(hold)\<close>.
\<close>

definition state_before_try ::
  "('r, 'cs, 'z) pyplot_scheme \<Rightarrow> kwargs \<Rightarrow> nat \<Rightarrow> 'r world \<Rightarrow> 'r world" where
  "state_before_try lib kwargs ax w =
     (let w1 = w\<lparr>figure := snd (gca lib (figure w))\<rparr>
      in if kw_or kwargs ''hold'' PNone \<noteq> PNone
         then w1\<lparr>ax_hold := (ax_hold w1)(ax := kw_or kwargs ''hold'' PNone)\<rparr>
         else w1)"

text \<open>
  The object that \<open>__init__\<close> builds from the values \<open>smooth\<close> and \<open>k\<close>, the number
  \<open>int_number\<close> and the base part: \<open>kinds_fill\<close> is \<open>[1, 2, ..., 2]\<close> and \<open>unew\<close>
  holds \<open>int_number\<close> evenly spaced values from 0 to 1. \<open>smooth_object\<close> is the object
  for a float \<open>smooth\<close> and an integer \<open>k\<close>.
\<close>

definition unew_values :: "int \<Rightarrow> real list" where
  "unew_values n = (if n = 1 then [0] else map (\<lambda>i. real i / real (nat n - 1)) [0..<nat n])"

definition stored_object :: "pyval \<Rightarrow> pyval \<Rightarrow> int \<Rightarrow> 'cs \<Rightarrow> 'cs SmoothContour" where
  "stored_object smooth_v k_v n base =
     \<lparr>self_smooth = smooth_v, self_k = k_v, self_int_number = n,
      self_kinds_fill = 1 # replicate (nat n - 1) 2,
      self_unew = unew_values n,
      self_base = base\<rparr>"

definition smooth_object :: "real \<Rightarrow> int \<Rightarrow> int \<Rightarrow> 'cs \<Rightarrow> 'cs SmoothContour" where
  "smooth_object s k n base = stored_object (PFloat s) (PInt k) n base"

text \<open>
  Library stand-ins for the examples: a \<open>pyplot\<close> whose current axes is axes 0, whose
  \<open>ContourSet.__init__\<close> raises after it has set every hold flag to \<open>False\<close>, and one whose
  \<open>ContourSet.__init__\<close> returns the keyword dictionary it was given at the key
  \<open>''cmap''\<close>.
\<close>

definition raising_pyplot :: "(unit, unit) pyplot" where
  "raising_pyplot =
     \<lparr>gca = (\<lambda>r. (0, r)),
      ContourSet_init = (\<lambda>ax args kw w. (Inl (LibError 7), w\<lparr>ax_hold := (\<lambda>a. PBool False)\<rparr>)),
      draw_if_interactive = (\<lambda>w. (Inr (), w)),
      has_A = (\<lambda>c. False),
      sci = (\<lambda>c r. (Inr (), r))\<rparr>"

definition echo_pyplot :: "(unit, pyval option) pyplot" where
  "echo_pyplot =
     \<lparr>gca = (\<lambda>r. (0, r)),
      ContourSet_init = (\<lambda>ax args kw w. (Inr (kw ''cmap''), w)),
      draw_if_interactive = (\<lambda>w. (Inr (), w)),
      has_A = (\<lambda>c. False),
      sci = (\<lambda>c r. (Inr (), r))\<rparr>"

definition all_held :: "unit world" where
  "all_held = \<lparr>ax_hold = (\<lambda>a. PBool True), figure = ()\<rparr>"

text \<open>
  The number of rows of the first result of \<open>unique_vec\<close>: the distinct rows of the
  segment, and one more when the segment is closed (its first row stands again later).
\<close>

definition closed_seg :: "'a list \<Rightarrow> bool" where
  "closed_seg seg = (hd seg \<in> set (tl seg))"

definition useg_rows :: "'a list \<Rightarrow> nat" where
  "useg_rows seg = length (remdups seg) + (if closed_seg seg then 1 else 0)"

text \<open>
  What \<open>splev\<close> promises of its result: one array for each coordinate (at least one),
  each with one value for each parameter value it was given.
\<close>

definition splev_shape :: "'tck scipy \<Rightarrow> bool" where
  "splev_shape sp =
     (\<forall>u tck coords. splev sp u tck = Inr coords \<longrightarrow>
        coords \<noteq> [] \<and> list_all (\<lambda>c. length c = length u) coords)"

text \<open>
  Spline stand-ins for the examples: \<open>flag_scipy\<close> keeps as \<open>tck\<close> the flag \<open>per\<close> it
  was fitted with, and its curve is constant at the point \<open>(per, per)\<close>;
  \<open>diagonal_scipy\<close> fits the curve \<open>t \<mapsto> (t, t)\<close> to everything.
\<close>

definition flag_scipy :: "nat scipy" where
  "flag_scipy =
     \<lparr>splprep = (\<lambda>x s k per. Inr per),
      splev = (\<lambda>u tck. Inr [map (\<lambda>t. real tck) u, map (\<lambda>t. real tck) u])\<rparr>"

definition diagonal_scipy :: "unit scipy" where
  "diagonal_scipy =
     \<lparr>splprep = (\<lambda>x s k per. Inr ()),
      splev = (\<lambda>u tck. Inr [u, u])\<rparr>"

text \<open>A closed triangle and an open path of four points.\<close>

definition triangle :: "real list list" where
  "triangle = [[0, 0], [1, 0], [0, 1], [0, 0]]"

definition open_path :: "real list list" where
  "open_path = [[0, 0], [1, 0], [2, 1], [3, 3]]"

text \<open>
  The two halves of the tracer's list: \<open>nlist[:nseg]\<close> and \<open>nlist[nseg:]\<close> with
  \<open>nseg = len(nlist) // 2\<close>; they are what the unsmoothed \<open>QuadContourSet\<close> returns
  for a level. \<open>traced r\<close> is the list that a call of the tracer returned.
\<close>

definition first_half :: "'a list \<Rightarrow> 'a list" where
  "first_half nlist = take (length nlist div 2) nlist"

definition second_half :: "'a list \<Rightarrow> 'a list" where
  "second_half nlist = drop (length nlist div 2) nlist"

definition traced :: "py_error + ndarray list \<Rightarrow> ndarray list" where
  "traced r = (case r of Inl e \<Rightarrow> [] | Inr nlist \<Rightarrow> nlist)"

text \<open>
  A vertex array too short to smooth for the stored \<open>k\<close>: it is not empty and
  \<open>unique_vec\<close> returns at most \<open>k\<close> rows for it (the test \<open>len(useg) > k\<close> is false).
\<close>

definition short_seg :: "pyval \<Rightarrow> real list list \<Rightarrow> bool" where
  "short_seg k seg = (seg \<noteq> [] \<and> int_gt (int (useg_rows seg)) k = Inr False)"

fun short_array :: "pyval \<Rightarrow> ndarray \<Rightarrow> bool" where
  "short_array k (Vertices seg) = short_seg k seg"
| "short_array k _ = False"

definition short_level :: "pyval \<Rightarrow> py_error + ndarray list \<Rightarrow> bool" where
  "short_level k r =
     (case r of Inl e \<Rightarrow> False | Inr nlist \<Rightarrow> list_all (short_array k) (first_half nlist))"

text \<open>
  A path of a filled level with nothing to smooth. With at most one code 1, its vertex
  array is short. With more, the path is well formed (as many codes as vertices, the
  first code 1, all vertices of one dimension) and each piece from a code 1 to the next
  is short.
\<close>

definition pieces :: "nat list \<Rightarrow> (nat \<times> nat) list" where
  "pieces kind = (let ndx = np_where_eq1 kind @ [length kind] in zip ndx (tl ndx))"

definition one_width :: "real list list \<Rightarrow> bool" where
  "one_width seg = list_all (\<lambda>r. length r = length (hd seg)) seg"

fun short_path :: "pyval \<Rightarrow> ndarray \<times> ndarray \<Rightarrow> bool" where
  "short_path k (Vertices seg, Codes kind) =
     (if length (filter (\<lambda>v. v = 1) kind) > 1
      then length seg = length kind \<and> hd kind = 1 \<and> one_width seg
           \<and> list_all (\<lambda>(lo, hi). short_seg k (py_slice seg lo hi)) (pieces kind)
      else short_seg k seg)"
| "short_path k _ = False"

definition short_filled_level :: "pyval \<Rightarrow> py_error + ndarray list \<Rightarrow> bool" where
  "short_filled_level k r =
     (case r of
        Inl e \<Rightarrow> False
      | Inr nlist \<Rightarrow> list_all (short_path k) (zip (first_half nlist) (second_half nlist)))"

text \<open>
  An entry of \<open>allsegs\<close> comes from an entry of the tracer's list: it is the result of
  \<open>_smooth_segs\<close> on it (unfilled), of the smoothing of the path (filled).
\<close>

definition smoothed_from ::
  "(nat list \<Rightarrow> nat list) \<Rightarrow> 'tck scipy \<Rightarrow> ('cs, 'z) SmoothContour_scheme
     \<Rightarrow> ndarray \<Rightarrow> ndarray \<Rightarrow> bool" where
  "smoothed_from perm sp self a a' =
     (\<exists>seg s. rows_of a = Inr seg \<and> smooth_segs perm sp self seg None True = Inr (s, None)
              \<and> a' = Vertices s)"

definition path_smoothed_from ::
  "(nat list \<Rightarrow> nat list) \<Rightarrow> 'tck scipy \<Rightarrow> ('cs, 'z) SmoothContour_scheme
     \<Rightarrow> ndarray \<times> ndarray \<Rightarrow> ndarray \<times> ndarray \<Rightarrow> bool" where
  "path_smoothed_from perm sp self ac ac' = (smooth_path perm sp self (fst ac) (snd ac) = Inr ac')"

definition line_level_from ::
  "(nat list \<Rightarrow> nat list) \<Rightarrow> 'tck scipy \<Rightarrow> ('cs, 'z) SmoothContour_scheme
     \<Rightarrow> (real \<Rightarrow> py_error + ndarray list) \<Rightarrow> real \<Rightarrow> ndarray list \<Rightarrow> bool" where
  "line_level_from perm sp self tr level segs' =
     (\<exists>nlist. tr level = Inr nlist
        \<and> list_all2 (smoothed_from perm sp self) (first_half nlist) segs')"

definition filled_level_from ::
  "(nat list \<Rightarrow> nat list) \<Rightarrow> 'tck scipy \<Rightarrow> ('cs, 'z) SmoothContour_scheme
     \<Rightarrow> (real \<Rightarrow> real \<Rightarrow> py_error + ndarray list) \<Rightarrow> real \<times> real
     \<Rightarrow> ndarray list \<times> ndarray list \<Rightarrow> bool" where
  "filled_level_from perm sp self tr lu sk =
     (\<exists>nlist. tr (fst lu) (snd lu) = Inr nlist
        \<and> length (fst sk) = length (first_half nlist)
        \<and> length (snd sk) = length (second_half nlist)
        \<and> list_all2 (path_smoothed_from perm sp self)
              (zip (first_half nlist) (second_half nlist)) (zip (fst sk) (snd sk)))"

text \<open>
  Tracer stand-ins for the examples: an unfilled contour set with one level whose
  tracer returns the closed triangle, and a filled one whose tracer returns one path
  made of the open path twice (two codes 1).
\<close>

definition triangle_tracer :: contour_state where
  "triangle_tracer =
     \<lparr>self_filled = False, self_levels = [1 / 2], self_nchunk = 0,
      get_lowers_and_uppers = Inr ([1 / 2], [1]),
      trace_line = (\<lambda>level. Inr [Vertices triangle, Codes [1, 2, 2, 2]]),
      trace_filled = (\<lambda>level level_upper nchunk. Inr [])\<rparr>"

definition two_piece_tracer :: contour_state where
  "two_piece_tracer =
     \<lparr>self_filled = True, self_levels = [1 / 2, 1], self_nchunk = 0,
      get_lowers_and_uppers = Inr ([1 / 2], [1]),
      trace_line = (\<lambda>level. Inr []),
      trace_filled = (\<lambda>level level_upper nchunk.
         Inr [Vertices (open_path @ open_path), Codes [1, 2, 2, 2, 1, 2, 2, 2]])\<rparr>"

text \<open>
  Library stand-ins for the examples of \<open>scatter_contour\<close>: a contour set is its
  \<open>allsegs\<close> (every contour call returns \<open>segs\<close>), \<open>ax.plot\<close> returns the points it
  was given, \<open>v / 2\<close> stands for \<open>np.log10(v)\<close>, \<open>np.histogram2d\<close> counts the points
  as numpy does, and the bin edges it takes and the two point-in-polygon routines are
  parameters.
  \<open>ten_bins\<close> are the edges \<open>0, 1, ..., 10\<close>: those of numpy's ten default bins for
  data from 0 to 10.
\<close>

definition stub_libraries ::
  "(kwargs \<Rightarrow> real list \<Rightarrow> real list \<Rightarrow> py_error + (real list \<times> real list))
     \<Rightarrow> real list list list list
     \<Rightarrow> (real list list \<Rightarrow> real list list \<Rightarrow> py_error + bool list)
     \<Rightarrow> (real list list \<Rightarrow> real list list \<Rightarrow> py_error + bool list)
     \<Rightarrow> (unit, real list list list list, (real \<times> real) list) libraries" where
  "stub_libraries edges segs contains inside =
     \<lparr>gca = (\<lambda>r. (0, r)),
      ContourSet_init = (\<lambda>ax args kw w. (Inr segs, w)),
      draw_if_interactive = (\<lambda>w. (Inr (), w)),
      has_A = (\<lambda>c. False),
      sci = (\<lambda>c r. (Inr (), r)),
      np_histogram2d = count_histogram2d edges,
      np_log10 = (\<lambda>v. v / 2),
      ax_contour = (\<lambda>ax args kw w. (Inr segs, w)),
      ax_contourf = (\<lambda>ax args kw w. (Inr segs, w)),
      allsegs_of = (\<lambda>c. c),
      path_contains_points = contains,
      nx_points_inside_poly = inside,
      ax_plot = (\<lambda>ax xs ys kw w. (Inr (zip xs ys), w))\<rparr>"


definition ten_bins :: "real list" where
  "ten_bins = map real [0..<11]"








section \<open>Properties of \<open>unique_vec\<close>\<close>

lemma map_of_setdefault_setitem:
  "map_of (dict_setitem (dict_setdefault ud k d) k v) = (map_of ud)(k \<mapsto> v)"
  by (induction ud) (auto simp: fun_eq_iff)

lemma keys_setdefault_setitem:
  "fst ` set (dict_setitem (dict_setdefault ud k d) k v) = insert k (fst ` set ud)"
  by (induction ud) auto

lemma distinct_setdefault_setitem:
  "distinct (map fst ud) \<Longrightarrow> distinct (map fst (dict_setitem (dict_setdefault ud k d) k v))"
proof (induction ud)
  case Nil
  then show ?case by simp
next
  case (Cons p ps)
  have "fst ` set (dict_setitem (dict_setdefault ps k d) k v) = insert k (fst ` set ps)"
    by (rule keys_setdefault_setitem)
  with Cons show ?case by auto
qed

lemma unique_loop_distinct:
  "distinct (map fst ud) \<Longrightarrow> distinct (map fst (unique_loop ud n xs))"
  by (induction xs arbitrary: ud n) (simp_all add: distinct_setdefault_setitem)

lemma unique_loop_keys:
  "fst ` set (unique_loop ud n xs) = fst ` set ud \<union> set xs"
  by (induction xs arbitrary: ud n) (auto simp: keys_setdefault_setitem)

lemma unique_loop_map_of:
  "map_of (unique_loop ud n xs) k =
     (if k \<in> set xs then Some (n + last_pos xs k) else map_of ud k)"
  by (induction xs arbitrary: ud n) (auto simp: map_of_setdefault_setitem)

lemma last_pos_less: "k \<in> set xs \<Longrightarrow> last_pos xs k < length xs"
  by (induction xs) auto

lemma last_pos_nth: "k \<in> set xs \<Longrightarrow> xs ! last_pos xs k = k"
  by (induction xs) auto

lemma dict_order_set: "dict_order perm \<Longrightarrow> set (perm vs) = set vs"
  by (metis dict_order_def mset_eq_setD)

lemma dict_order_length: "dict_order perm \<Longrightarrow> length (perm vs) = length vs"
  by (metis dict_order_def mset_eq_length)

lemma dict_order_sort: "dict_order perm \<Longrightarrow> sort (perm vs) = sort vs"
  by (rule properties_for_sort) (simp_all add: dict_order_def)

text \<open>The sorted index array does not depend on the order of the dictionary.\<close>

lemma sort_dict_values:
  "dict_order perm \<Longrightarrow> sort (dict_values perm ud) = sort (map snd ud)"
  by (simp add: dict_values_def dict_order_sort)

lemma unique_loop_values:
  "set (map snd (unique_loop [] 0 A)) = (last_pos A) ` set A"
proof -
  let ?ud = "unique_loop [] 0 A"
  have d: "distinct (map fst ?ud)" by (rule unique_loop_distinct) simp
  have "set (map snd ?ud) = ran (map_of ?ud)"
    using ran_distinct [OF d] by simp
  also have "\<dots> = (last_pos A) ` set A"
    by (auto simp: ran_def unique_loop_map_of split: if_splits)
  finally show ?thesis .
qed

lemma unique_loop_length:
  "length (unique_loop [] 0 A) = card (set A)"
proof -
  let ?ud = "unique_loop [] 0 A"
  have d: "distinct (map fst ?ud)" by (rule unique_loop_distinct) simp
  have "length ?ud = length (map fst ?ud)" by simp
  also have "\<dots> = card (set (map fst ?ud))" using distinct_card [OF d] by simp
  also have "set (map fst ?ud) = set A" using unique_loop_keys [of "[]" 0 A] by simp
  finally show ?thesis .
qed

lemma zero_in_values:
  "A \<noteq> [] \<Longrightarrow> 0 \<in> (last_pos A) ` set A \<longleftrightarrow> hd A \<notin> set (tl A)"
  by (cases A) (auto simp: image_iff)

lemma sort_hd_zero:
  fixes vs :: "nat list"
  assumes "sort vs = g0 # rest"
  shows "g0 = 0 \<longleftrightarrow> 0 \<in> set vs"
proof
  assume "g0 = 0"
  then have "0 \<in> set (sort vs)" using assms by simp
  then show "0 \<in> set vs" by simp
next
  assume "0 \<in> set vs"
  then have "0 \<in> set (g0 # rest)" using assms by (metis set_sort)
  moreover have "sorted (g0 # rest)" using assms by (metis sorted_sort)
  ultimately show "g0 = 0" by auto
qed

lemma take_rows_ok:
  "list_all (\<lambda>i. i < length A) gdx \<Longrightarrow> take_rows A gdx = Inr (map (\<lambda>i. A ! i) gdx)"
  by (simp add: take_rows_def)

lemma values_in_range:
  "list_all (\<lambda>i. i < length A) (sort (map snd (unique_loop [] 0 A)))"
proof -
  have "set (sort (map snd (unique_loop [] 0 A))) = (last_pos A) ` set A"
    using unique_loop_values [of A] by simp
  then show ?thesis by (auto simp: list_all_iff last_pos_less)
qed

text \<open>
  What \<open>unique_vec\<close> returns on a non-empty array: the rows at the sorted last
  indices, after the first row when that row stands again later.
\<close>

lemma unique_vec_char:
  assumes "dict_order perm" "A \<noteq> []"
  shows "unique_vec perm A =
     Inr (if hd A \<in> set (tl A)
          then (A ! 0 # map (\<lambda>i. A ! i) (sort (map snd (unique_loop [] 0 A))), 1)
          else (map (\<lambda>i. A ! i) (sort (map snd (unique_loop [] 0 A))), 0))"
proof -
  let ?vs = "map snd (unique_loop [] 0 A)"
  have "length (sort ?vs) = card (set A)" using unique_loop_length [of A] by simp
  moreover have "card (set A) \<noteq> 0" using assms(2) by simp
  ultimately have ne: "sort ?vs \<noteq> []" by (metis length_0_conv)
  then obtain g0 rest where g: "sort ?vs = g0 # rest" by (cases "sort ?vs") auto
  have z: "g0 = 0 \<longleftrightarrow> hd A \<notin> set (tl A)"
    using sort_hd_zero [OF g] zero_in_values [OF assms(2)] unique_loop_values [of A] by simp
  have r: "list_all (\<lambda>i. i < length A) (g0 # rest)"
    using values_in_range [of A] g by simp
  have r0: "list_all (\<lambda>i. i < length A) (0 # g0 # rest)"
    using r assms(2) by simp
  show ?thesis
    using z g take_rows_ok [OF r] take_rows_ok [OF r0] sort_dict_values [OF assms(1), of "unique_loop [] 0 A"]
    by (simp add: unique_vec_def Let_def)
qed

lemma unique_vec_empty: "dict_order perm \<Longrightarrow> unique_vec perm [] = Inl IndexError"
  using dict_order_length [of perm "[]"] by (simp add: unique_vec_def dict_values_def)

lemma unique_vec_length:
  assumes "dict_order perm" "A \<noteq> []" "unique_vec perm A = Inr (useg, per)"
  shows "length useg = card (set A) + per"
  using assms unique_vec_char [OF assms(1,2)] unique_loop_length [of A]
  by (auto split: if_splits)

lemma later_index_iff:
  "A \<noteq> [] \<Longrightarrow> (\<exists>j. 0 < j \<and> j < length A \<and> A ! j = A ! 0) \<longleftrightarrow> hd A \<in> set (tl A)"
proof (cases A)
  case Nil
  assume "A \<noteq> []" with Nil show ?thesis by simp
next
  case (Cons a as)
  have "(\<exists>j. 0 < j \<and> j < Suc (length as) \<and> (a # as) ! j = a) \<longleftrightarrow> (\<exists>i < length as. as ! i = a)"
  proof
    assume "\<exists>j. 0 < j \<and> j < Suc (length as) \<and> (a # as) ! j = a"
    then obtain j where j: "0 < j" "j < Suc (length as)" "(a # as) ! j = a" by blast
    then obtain i where "j = Suc i" by (cases j) auto
    with j show "\<exists>i < length as. as ! i = a" by auto
  next
    assume "\<exists>i < length as. as ! i = a"
    then obtain i where "i < length as" "as ! i = a" by blast
    then have "0 < Suc i \<and> Suc i < Suc (length as) \<and> (a # as) ! Suc i = a" by simp
    then show "\<exists>j. 0 < j \<and> j < Suc (length as) \<and> (a # as) ! j = a" by blast
  qed
  then show ?thesis using Cons by (simp add: in_set_conv_nth)
qed

lemma unique_vec_open_head:
  assumes "A \<noteq> []" "hd A \<notin> set (tl A)"
  shows "\<exists>rest. sort (map snd (unique_loop [] 0 A)) = 0 # rest"
proof -
  let ?vs = "map snd (unique_loop [] 0 A)"
  have z: "0 \<in> set ?vs" using zero_in_values [OF assms(1)] assms(2) unique_loop_values [of A] by simp
  then have ne: "sort ?vs \<noteq> []" by (metis empty_iff empty_set set_sort)
  then obtain g0 rest where g: "sort ?vs = g0 # rest" by (cases "sort ?vs") auto
  with sort_hd_zero [OF g] z show ?thesis by simp
qed

text \<open>
  C7. For every non-empty array \<open>A\<close>, \<open>unique_vec\<close> returns a pair \<open>(useg, per)\<close> whose
  \<open>useg[0]\<close> is \<open>A[0]\<close>, and \<open>per\<close> is 1 exactly when the first row of \<open>A\<close> stands again
  at a later index of \<open>A\<close>, and 0 otherwise.
\<close>

theorem unique_vec_first_and_per:
  assumes "dict_order perm" "A \<noteq> []"
  shows "\<exists>useg per. unique_vec perm A = Inr (useg, per) \<and> useg \<noteq> [] \<and> useg ! 0 = A ! 0
           \<and> (per = 1 \<longleftrightarrow> (\<exists>j. 0 < j \<and> j < length A \<and> A ! j = A ! 0))
           \<and> (per = 0 \<or> per = 1)"
proof (cases "hd A \<in> set (tl A)")
  case True
  then show ?thesis
    using unique_vec_char [OF assms] later_index_iff [OF assms(2)] by simp
next
  case False
  then show ?thesis
    using unique_vec_char [OF assms] later_index_iff [OF assms(2)]
      unique_vec_open_head [OF assms(2) False]
    by auto
qed

lemma dict_order_rev: "dict_order rev"
  by (simp add: dict_order_def)

text \<open>On the closed array 1, 2, 1, with the dictionary listing its values in reverse.\<close>

theorem unique_vec_first_and_per_witness:
  "dict_order rev \<and> [1, 2, 1 :: nat] \<noteq> [] \<and>
   (\<exists>useg per. unique_vec rev [1, 2, 1 :: nat] = Inr (useg, per) \<and> useg \<noteq> []
           \<and> useg ! 0 = [1, 2, 1] ! 0
           \<and> (per = 1 \<longleftrightarrow> (\<exists>j. 0 < j \<and> j < length [1, 2, 1 :: nat] \<and> [1, 2, 1 :: nat] ! j = [1, 2, 1] ! 0))
           \<and> (per = 0 \<or> per = 1))"
  using unique_vec_first_and_per [of rev "[1, 2, 1 :: nat]"] dict_order_rev by simp

section \<open>Properties of \<open>smooth_contour\<close> and \<open>smooth_contourf\<close>\<close>

lemma dict_pop_eq:
  "dict_pop kw key dflt = (kw_or kw key dflt, without_keys kw [key])"
  by (auto simp: dict_pop_def kw_or_def without_keys_def fun_eq_iff split: option.splits)

lemma without_keys_append:
  "without_keys (without_keys kw ks) ks' = without_keys kw (ks @ ks')"
  by (auto simp: without_keys_def fun_eq_iff)

lemma kw_or_without:
  "key \<notin> set ks \<Longrightarrow> kw_or (without_keys kw ks) key d = kw_or kw key d"
  by (simp add: kw_or_def without_keys_def)

lemma kw_or_upd_other:
  "key \<noteq> key' \<Longrightarrow> kw_or (kw(key' \<mapsto> v)) key d = kw_or kw key d"
  by (simp add: kw_or_def)

lemma hold_value:
  "b \<noteq> PNone \<Longrightarrow> hold w ax b = Inr (w\<lparr>ax_hold := (ax_hold w)(ax := b)\<rparr>)"
  by (simp add: hold_def)

lemma after_try_hold:
  "washold \<noteq> PNone \<Longrightarrow> ax_hold (snd (after_try lib ax washold r)) ax = washold"
  by (cases r) (auto simp: after_try_def hold_value split: sum.splits prod.splits)

lemma smooth_contour_body_char:
  "smooth_contour_body fl lib args kwargs w =
     (case as_axes (kw_or kwargs ''ax'' (PAxes (fst (gca lib (figure w))))) of
        Inl e \<Rightarrow> (Inl e, w\<lparr>figure := snd (gca lib (figure w))\<rparr>)
      | Inr ax \<Rightarrow>
          after_try lib ax (ax_hold w ax)
            (try_body lib ax args (without_keys (kwargs(''filled'' \<mapsto> PBool fl)) [''ax'', ''hold''])
               (state_before_try lib kwargs ax w)))"
proof (cases "gca lib (figure w)")
  case (Pair cur fig)
  then show ?thesis
    by (simp add: smooth_contour_body_def Let_def dict_pop_eq kw_or_upd_other kw_or_without
        without_keys_append state_before_try_def ishold_def hold_value split: sum.splits)
qed

lemma kinds_fill_value:
  "0 < n \<Longrightarrow> (replicate (nat n) (2::nat))[0 := Suc 0] = Suc 0 # replicate (nat n - Suc 0) 2"
  by (cases "nat n") auto

lemma init_arrays_char:
  assumes "as_int v = Inr n" and "0 < n"
  shows "init_arrays v = Inr (n, 1 # replicate (nat n - 1) 2, unew_values n)"
  using assms
  by (simp add: init_arrays_def np_ones_times2_def array_setitem_def np_linspace_def
      kinds_fill_value unew_values_def)

lemma SmoothContour_init_char:
  assumes "as_int (kw_or kwargs ''int_number'' (PInt 100)) = Inr n"
    and "0 < n"
  shows "SmoothContour_init lib ax args kwargs w =
     (case ContourSet_init lib ax args (without_keys kwargs [''smooth'', ''k'', ''int_number'']) w of
        (Inl e, w') \<Rightarrow> (Inl e, w')
      | (Inr base, w') \<Rightarrow>
          (Inr (stored_object (kw_or kwargs ''smooth'' (PInt 0)) (kw_or kwargs ''k'' (PInt 3)) n base),
           w'))"
proof -
  have "init_arrays (kw_or (without_keys kwargs [''smooth'', ''k'']) ''int_number'' (PInt 100))
      = Inr (n, 1 # replicate (nat n - 1) 2, unew_values n)"
    using init_arrays_char [OF _ assms(2), of "kw_or kwargs ''int_number'' (PInt 100)"] assms(1)
    by (simp add: kw_or_without)
  then show ?thesis
    by (simp add: SmoothContour_init_def dict_pop_eq kw_or_without without_keys_append
        stored_object_def split: prod.splits sum.splits)
qed

text \<open>
  C8. For every call of \<open>smooth_contour\<close> or \<open>smooth_contourf\<close>, the hold state of the
  target axes after the call is its value before the call, also when the construction
  of the \<open>SmoothContour\<close> raises (the constructor and the drawing are any functions of
  the state, raising or not). The hold state is any value that the attribute \<open>_hold\<close>
  can have: matplotlib never leaves \<open>None\<close> there (\<open>Axes.__init__\<close> starts from a
  boolean, and \<open>hold(None)\<close> stores a boolean).
\<close>

theorem hold_state_restored:
  assumes "kw_or kwargs ''ax'' (PAxes (fst (gca lib (figure w)))) = PAxes ax"
    and "ax_hold w ax \<noteq> PNone"
  shows "ax_hold (snd (smooth_contour lib args kwargs w)) ax = ax_hold w ax
       \<and> ax_hold (snd (smooth_contourf lib args kwargs w)) ax = ax_hold w ax"
  using assms
  by (simp add: smooth_contour_def smooth_contourf_def smooth_contour_body_char after_try_hold)

text \<open>With a constructor that raises after it has set every hold flag to \<open>False\<close>, and \<open>hold=''\<close>: the exception reaches the caller and the flag of the axes is as before.\<close>

theorem hold_state_restored_witness:
  "kw_or [''hold'' \<mapsto> PStr []] ''ax'' (PAxes (fst (gca raising_pyplot (figure all_held)))) = PAxes 0
   \<and> ax_hold all_held 0 \<noteq> PNone
   \<and> ax_hold (state_before_try raising_pyplot [''hold'' \<mapsto> PStr []] 0 all_held) 0 = PStr []
   \<and> fst (smooth_contour raising_pyplot [] [''hold'' \<mapsto> PStr []] all_held) = Inl (LibError 7)
   \<and> ax_hold (snd (smooth_contour raising_pyplot [] [''hold'' \<mapsto> PStr []] all_held)) 0
       = ax_hold all_held 0
   \<and> ax_hold (snd (smooth_contourf raising_pyplot [] [''hold'' \<mapsto> PStr []] all_held)) 0
       = ax_hold all_held 0"
  using hold_state_restored [of "[''hold'' \<mapsto> PStr []]" raising_pyplot all_held 0 "[]"]
  by (simp add: kw_or_def raising_pyplot_def all_held_def smooth_contour_def
      smooth_contour_body_def dict_pop_def Let_def hold_def ishold_def try_body_def after_try_def
      SmoothContour_init_def init_arrays_def np_ones_times2_def array_setitem_def np_linspace_def
      state_before_try_def)

lemma try_body_char:
  assumes "as_int (kw_or kw ''int_number'' (PInt 100)) = Inr n"
    and "0 < n"
    and "kw_or kw ''smooth'' (PInt 0) = smooth_v"
    and "kw_or kw ''k'' (PInt 3) = k_v"
  shows "try_body lib ax args kw w =
     (case ContourSet_init lib ax args (without_keys kw [''smooth'', ''k'', ''int_number'']) w of
        (Inl e, w') \<Rightarrow> (Inl e, w')
      | (Inr base, w') \<Rightarrow>
          (case draw_if_interactive lib w' of
             (Inl e, w'') \<Rightarrow> (Inl e, w'')
           | (Inr u, w'') \<Rightarrow> (Inr (stored_object smooth_v k_v n base), w'')))"
  using SmoothContour_init_char [OF assms(1,2), of lib ax args w] assms(3,4)
  by (simp add: try_body_def split: prod.splits sum.splits)

text \<open>
  C9. \<open>smooth_contour\<close> and \<open>smooth_contourf\<close> consume the keywords \<open>smooth\<close>, \<open>k\<close>,
  \<open>int_number\<close>, \<open>ax\<close> and \<open>hold\<close> (defaults 0, 3, 100, the current axes, no change),
  store \<open>False\<close> and \<open>True\<close> under \<open>filled\<close>, and hand the positional arguments and
  every other keyword unchanged to \<open>ContourSet.__init__\<close>. The values of \<open>smooth\<close> and
  \<open>k\<close> are stored in the object as they come.
\<close>

theorem smooth_contour_keywords:
  assumes "kw_or kwargs ''ax'' (PAxes (fst (gca lib (figure w)))) = PAxes ax"
    and "as_int (kw_or kwargs ''int_number'' (PInt 100)) = Inr n"
    and "0 < n"
  shows "smooth_contour lib args kwargs w =
           after_try lib ax (ax_hold w ax)
             (case ContourSet_init lib ax args
                     (without_keys (kwargs(''filled'' \<mapsto> PBool False))
                        [''ax'', ''hold'', ''smooth'', ''k'', ''int_number''])
                     (state_before_try lib kwargs ax w) of
                (Inl e, w') \<Rightarrow> (Inl e, w')
              | (Inr base, w') \<Rightarrow>
                  (case draw_if_interactive lib w' of
                     (Inl e, w'') \<Rightarrow> (Inl e, w'')
                   | (Inr u, w'') \<Rightarrow>
                       (Inr (stored_object (kw_or kwargs ''smooth'' (PInt 0))
                               (kw_or kwargs ''k'' (PInt 3)) n base), w'')))
       \<and> smooth_contourf lib args kwargs w =
           after_try lib ax (ax_hold w ax)
             (case ContourSet_init lib ax args
                     (without_keys (kwargs(''filled'' \<mapsto> PBool True))
                        [''ax'', ''hold'', ''smooth'', ''k'', ''int_number''])
                     (state_before_try lib kwargs ax w) of
                (Inl e, w') \<Rightarrow> (Inl e, w')
              | (Inr base, w') \<Rightarrow>
                  (case draw_if_interactive lib w' of
                     (Inl e, w'') \<Rightarrow> (Inl e, w'')
                   | (Inr u, w'') \<Rightarrow>
                       (Inr (stored_object (kw_or kwargs ''smooth'' (PInt 0))
                               (kw_or kwargs ''k'' (PInt 3)) n base), w'')))"
proof -
  have tb: "try_body lib ax args (without_keys (kwargs(''filled'' \<mapsto> PBool fl)) [''ax'', ''hold'']) w' =
     (case ContourSet_init lib ax args
             (without_keys (kwargs(''filled'' \<mapsto> PBool fl))
                [''ax'', ''hold'', ''smooth'', ''k'', ''int_number'']) w' of
        (Inl e, w') \<Rightarrow> (Inl e, w')
      | (Inr base, w') \<Rightarrow>
          (case draw_if_interactive lib w' of
             (Inl e, w'') \<Rightarrow> (Inl e, w'')
           | (Inr u, w'') \<Rightarrow>
               (Inr (stored_object (kw_or kwargs ''smooth'' (PInt 0))
                       (kw_or kwargs ''k'' (PInt 3)) n base), w'')))" for fl w'
    using try_body_char [of "without_keys (kwargs(''filled'' \<mapsto> PBool fl)) [''ax'', ''hold'']" n
        "kw_or kwargs ''smooth'' (PInt 0)" "kw_or kwargs ''k'' (PInt 3)" lib ax args w']
      assms(2,3)
    by (simp add: kw_or_without kw_or_upd_other without_keys_append)
  show ?thesis
    using assms(1) by (simp add: smooth_contour_def smooth_contourf_def smooth_contour_body_char tb)
qed

text \<open>With \<open>smooth=0.5\<close> and a keyword \<open>cmap\<close> of the caller: the constructor receives \<open>cmap\<close>, and \<open>k\<close> and \<open>int_number\<close> take their defaults.\<close>

theorem smooth_contour_keywords_witness:
  "kw_or [''smooth'' \<mapsto> PFloat (1/2), ''cmap'' \<mapsto> PObj 5] ''ax''
       (PAxes (fst (gca echo_pyplot (figure all_held)))) = PAxes 0
   \<and> as_int (kw_or [''smooth'' \<mapsto> PFloat (1/2), ''cmap'' \<mapsto> PObj 5] ''int_number'' (PInt 100)) = Inr 100
   \<and> (0::int) < 100
   \<and> kw_or [''smooth'' \<mapsto> PFloat (1/2), ''cmap'' \<mapsto> PObj 5] ''smooth'' (PInt 0) = PFloat (1/2)
   \<and> kw_or [''smooth'' \<mapsto> PFloat (1/2), ''cmap'' \<mapsto> PObj 5] ''k'' (PInt 3) = PInt 3
   \<and> smooth_contour echo_pyplot [PObj 9] [''smooth'' \<mapsto> PFloat (1/2), ''cmap'' \<mapsto> PObj 5] all_held
       = (Inr (smooth_object (1/2) 3 100 (Some (PObj 5))), all_held)
   \<and> smooth_contourf echo_pyplot [PObj 9] [''smooth'' \<mapsto> PFloat (1/2), ''cmap'' \<mapsto> PObj 5] all_held
       = (Inr (smooth_object (1/2) 3 100 (Some (PObj 5))), all_held)"
  using smooth_contour_keywords [of "[''smooth'' \<mapsto> PFloat (1/2), ''cmap'' \<mapsto> PObj 5]"
      echo_pyplot all_held 0 100 "[PObj 9]"]
  by (simp add: kw_or_def echo_pyplot_def all_held_def after_try_def hold_def
      state_before_try_def without_keys_def Let_def fun_eq_iff smooth_object_def)

section \<open>Properties of the smoothing\<close>

lemma unique_vec_result:
  assumes "dict_order perm" "seg \<noteq> []"
  shows "\<exists>useg. unique_vec perm seg = Inr (useg, if closed_seg seg then 1 else 0)
            \<and> length useg = useg_rows seg"
  using unique_vec_char [OF assms] unique_loop_length [of seg]
  by (simp add: closed_seg_def useg_rows_def length_remdups_card_conv)

lemma unique_vec_perm:
  "dict_order perm \<Longrightarrow> unique_vec perm A = unique_vec (\<lambda>vs. vs) A"
  by (simp add: unique_vec_def sort_dict_values) (simp add: dict_values_def)

lemma foldr_max_le:
  "list_all (\<lambda>c. length c = n) coords \<Longrightarrow> foldr (\<lambda>xs. max (length xs)) coords 0 \<le> n"
  by (induction coords) auto

lemma foldr_max_const:
  "coords \<noteq> [] \<Longrightarrow> list_all (\<lambda>c. length c = n) coords \<Longrightarrow>
     foldr (\<lambda>xs. max (length xs)) coords 0 = n"
  using foldr_max_le [of n "tl coords"] by (cases coords) (auto simp: max_def)

lemma spline_points_length:
  assumes "splev_shape sp" "spline_points sp pts s k per u = Inr seg"
  shows "length seg = length u"
proof -
  from assms(2) obtain tck coords where
    c: "splev sp u tck = Inr coords" and m: "np_vstack coords = Inr coords" and
    sg: "seg = transpose coords"
    by (auto simp: spline_points_def np_vstack_def split: sum.splits list.splits if_splits)
  from assms(1) c have "coords \<noteq> []" "list_all (\<lambda>c. length c = length u) coords"
    by (auto simp: splev_shape_def)
  then show ?thesis using sg by (simp add: length_transpose foldr_max_const)
qed

lemma dstack_mean_length:
  "dstack_mean a b = Inr c \<Longrightarrow> length a = length b \<Longrightarrow> length c = length a"
  by (auto simp: dstack_mean_def split: if_splits)

lemma smooth_segs_short:
  assumes "dict_order perm" "seg \<noteq> []" "int_gt (int (useg_rows seg)) (self_k self) = Inr False"
  shows "smooth_segs perm sp self seg kind avg = Inr (seg, kind)"
  using unique_vec_result [OF assms(1,2)] assms(3)
  by (auto simp: smooth_segs_def)

lemma smooth_segs_long:
  assumes "dict_order perm" "seg \<noteq> []" "int_gt (int (useg_rows seg)) (self_k self) = Inr True"
    and "unique_vec perm seg = Inr (useg, per)"
    and "gt_int (self_smooth self) 0 = Inr positive"
  shows "smooth_segs perm sp self seg kind avg =
     (case spline_points sp useg (self_smooth self) (self_k self) (if closed_seg seg then 1 else 0)
             (self_unew self) of
        Inl e \<Rightarrow> Inl e
      | Inr seg1 \<Rightarrow>
          (case (if positive \<and> avg
                 then (case spline_points sp (rev useg) (self_smooth self) (self_k self)
                              (if closed_seg seg then 1 else 0) (rev (self_unew self)) of
                         Inl e \<Rightarrow> Inl e
                       | Inr seg2 \<Rightarrow> dstack_mean seg1 seg2)
                 else Inr seg1) of
             Inl e \<Rightarrow> Inl e
           | Inr seg' \<Rightarrow> Inr (seg', if kind \<noteq> None then Some (self_kinds_fill self) else kind)))"
  using unique_vec_result [OF assms(1,2)] assms(3,4,5)
  by (auto simp: smooth_segs_def cong: sum.case_cong if_cong)

lemma smooth_segs_long_positive:
  assumes "dict_order perm" "seg \<noteq> []" "int_gt (int (useg_rows seg)) (self_k self) = Inr True"
    and "smooth_segs perm sp self seg kind avg = Inr r"
  shows "\<exists>positive. gt_int (self_smooth self) 0 = Inr positive"
  using unique_vec_result [OF assms(1,2)] assms(3,4)
  by (auto simp: smooth_segs_def split: sum.splits)

lemma smooth_segs_long_shape:
  assumes "dict_order perm" "splev_shape sp" "seg \<noteq> []"
    and "int_gt (int (useg_rows seg)) (self_k self) = Inr True"
    and "smooth_segs perm sp self seg kind avg = Inr (seg', kind')"
  shows "length seg' = length (self_unew self)
       \<and> kind' = (if kind \<noteq> None then Some (self_kinds_fill self) else None)"
proof -
  obtain useg where u: "unique_vec perm seg = Inr (useg, if closed_seg seg then 1 else 0)"
    using unique_vec_result [OF assms(1,3)] by blast
  obtain positive where p: "gt_int (self_smooth self) 0 = Inr positive"
    using smooth_segs_long_positive [OF assms(1,3,4,5)] by blast
  note eq = smooth_segs_long [OF assms(1,3,4) u p, of sp kind avg]
  from assms(5) eq obtain seg1 where
    s1: "spline_points sp useg (self_smooth self) (self_k self) (if closed_seg seg then 1 else 0)
             (self_unew self) = Inr seg1"
    by (auto split: sum.splits)
  have l1: "length seg1 = length (self_unew self)"
    using spline_points_length [OF assms(2) s1] .
  show ?thesis
  proof (cases "positive \<and> avg")
    case False
    with assms(5) eq s1 l1 show ?thesis by (auto split: sum.splits)
  next
    case True
    with assms(5) eq s1 obtain seg2 where
      s2: "spline_points sp (rev useg) (self_smooth self) (self_k self)
              (if closed_seg seg then 1 else 0) (rev (self_unew self)) = Inr seg2"
      and d: "dstack_mean seg1 seg2 = Inr seg'"
      by (auto split: sum.splits)
    have l2: "length seg2 = length (self_unew self)"
      using spline_points_length [OF assms(2) s2] by simp
    from True assms(5) eq s1 s2 d dstack_mean_length [OF d] l1 l2 show ?thesis
      by (auto split: sum.splits)
  qed
qed

lemma smooth_object_fields:
  "0 < n \<Longrightarrow> length (self_unew (smooth_object s k n base)) = nat n"
  "self_kinds_fill (smooth_object s k n base) = 1 # replicate (nat n - 1) 2"
  "self_k (smooth_object s k n base) = PInt k"
  "self_smooth (smooth_object s k n base) = PFloat s"
  by (auto simp: smooth_object_def stored_object_def unew_values_def)

lemma splev_shape_diagonal: "splev_shape diagonal_scipy"
  by (simp add: splev_shape_def diagonal_scipy_def)

lemma splev_shape_flag: "splev_shape flag_scipy"
  by (auto simp: splev_shape_def flag_scipy_def)

text \<open>
  C6 as stated fails: the closed triangle has three distinct points, not more than
  \<open>k = 3\<close>, and \<open>_smooth_segs\<close> does not return it unchanged (\<open>unique_vec\<close> returns
  four rows for it, the first point twice).
\<close>

theorem smooth_segs_triangle_counterexample:
  "self_k (smooth_object 0 3 5 ()) = PInt 3
   \<and> int (length (remdups triangle)) \<le> 3
   \<and> smooth_segs rev diagonal_scipy (smooth_object 0 3 5 ()) triangle None False
       \<noteq> Inr (triangle, None)"
  by code_simp

text \<open>
  C6, amended. For every non-empty segment and every kind, \<open>_smooth_segs\<close> returns
  both unchanged whenever \<open>unique_vec\<close> returns at most \<open>k\<close> rows for the segment (its
  distinct points, and one more when it is closed); and whenever it returns more than
  \<open>k\<close> rows, a returned segment has exactly \<open>int_number\<close> points and, if the kind is not
  \<open>None\<close>, the returned kind is \<open>[1, 2, ..., 2]\<close> of length \<open>int_number\<close>.
\<close>

theorem smooth_segs_shape:
  assumes "dict_order perm" "splev_shape sp" "seg \<noteq> []" "0 < n"
  shows "(int (useg_rows seg) \<le> k \<longrightarrow>
            smooth_segs perm sp (smooth_object s k n base) seg kind avg = Inr (seg, kind))
       \<and> (int (useg_rows seg) > k \<longrightarrow>
            (\<forall>seg' kind'. smooth_segs perm sp (smooth_object s k n base) seg kind avg = Inr (seg', kind')
               \<longrightarrow> length seg' = nat n
                   \<and> kind' = (if kind \<noteq> None then Some (1 # replicate (nat n - 1) 2) else None)))"
proof (intro conjI impI allI)
  assume "int (useg_rows seg) \<le> k"
  then show "smooth_segs perm sp (smooth_object s k n base) seg kind avg = Inr (seg, kind)"
    using smooth_segs_short [OF assms(1,3), of "smooth_object s k n base" sp kind avg]
    by (simp add: smooth_object_fields)
next
  fix seg' kind'
  assume "k < int (useg_rows seg)"
    and "smooth_segs perm sp (smooth_object s k n base) seg kind avg = Inr (seg', kind')"
  then show "length seg' = nat n"
    and "kind' = (if kind \<noteq> None then Some (1 # replicate (nat n - 1) 2) else None)"
    using smooth_segs_long_shape [OF assms(1,2,3), of "smooth_object s k n base" kind avg seg' kind']
      assms(4)
    by (simp_all add: smooth_object_fields)
qed

text \<open>The open path is returned unchanged for \<open>k = 4\<close>; the closed triangle is replaced by five points for \<open>k = 3\<close>, \<open>int_number = 5\<close>.\<close>

theorem smooth_segs_shape_witness:
  "dict_order rev \<and> splev_shape diagonal_scipy \<and> triangle \<noteq> [] \<and> open_path \<noteq> [] \<and> (0::int) < 5
   \<and> int (useg_rows open_path) \<le> 4
   \<and> smooth_segs rev diagonal_scipy (smooth_object 0 4 5 ()) open_path (Some [1, 2, 2, 2]) True
        = Inr (open_path, Some [1, 2, 2, 2])
   \<and> int (useg_rows triangle) > 3
   \<and> (\<exists>seg'. smooth_segs rev diagonal_scipy (smooth_object 0 3 5 ()) triangle (Some [1, 2, 2, 2]) True
         = Inr (seg', Some [1, 2, 2, 2, 2]) \<and> length seg' = 5)"
proof -
  have a: "int (useg_rows open_path) \<le> 4" by code_simp
  have b: "int (useg_rows triangle) > 3" by code_simp
  have c: "triangle \<noteq> []" "open_path \<noteq> []" by (simp_all add: triangle_def open_path_def)
  have d: "(0::int) < 5" by simp
  have e: "smooth_segs rev diagonal_scipy (smooth_object 0 3 5 ()) triangle (Some [1, 2, 2, 2]) True
         = Inr ([[0, 0], [1 / 4, 1 / 4], [1 / 2, 1 / 2], [3 / 4, 3 / 4], [1, 1]],
                Some [1, 2, 2, 2, 2])" by code_simp
  show ?thesis
    using smooth_segs_shape [OF dict_order_rev splev_shape_diagonal c(2) d, of 4 0 "()" "Some [1, 2, 2, 2]" True]
      smooth_segs_shape [OF dict_order_rev splev_shape_diagonal c(1) d, of 3 0 "()" "Some [1, 2, 2, 2]" True]
      a b c d e dict_order_rev splev_shape_diagonal
    by auto
qed

text \<open>
  C2 as stated fails: the open path has four distinct points, more than \<open>k = 3\<close>, and it
  is fitted with \<open>per = 0\<close>. With \<open>flag_scipy\<close> the points of the result are the flag
  that \<open>splprep\<close> was given: \<open>(0, 0)\<close>, where the periodic fit gives \<open>(1, 1)\<close>.
\<close>

theorem open_segment_fit_counterexample:
  "self_k (smooth_object 0 3 5 ()) = PInt 3
   \<and> int (length (remdups open_path)) > 3
   \<and> smooth_segs rev flag_scipy (smooth_object 0 3 5 ()) open_path None False
        = Inr ([[0, 0], [0, 0], [0, 0], [0, 0], [0, 0]], None)
   \<and> spline_points flag_scipy open_path (PFloat 0) (PInt 3) 1 (self_unew (smooth_object 0 3 5 ()))
        = Inr [[1, 1], [1, 1], [1, 1], [1, 1], [1, 1]]"
  by code_simp

text \<open>
  C2, amended. A non-empty segment for which \<open>unique_vec\<close> returns more than \<open>k\<close> rows
  is replaced by a b-spline fitted to these rows with \<open>s = smooth\<close>, degree \<open>k\<close> and the
  periodic flag set exactly when the segment is closed (its first point stands again
  later); the spline is evaluated at the \<open>int_number\<close> evenly spaced values \<open>unew\<close>, and
  when \<open>smooth > 0\<close> and \<open>avg\<close> holds the result is the mean of it and of the fit to the
  reversed rows evaluated at the reversed values.
\<close>

theorem smooth_segs_spline:
  assumes "dict_order perm" "seg \<noteq> []" "0 < n" "int (useg_rows seg) > k"
  shows "\<exists>useg. unique_vec perm seg = Inr (useg, if closed_seg seg then 1 else 0)
           \<and> smooth_segs perm sp (smooth_object s k n base) seg kind avg =
     (case spline_points sp useg (PFloat s) (PInt k) (if closed_seg seg then 1 else 0)
             (unew_values n) of
        Inl e \<Rightarrow> Inl e
      | Inr seg1 \<Rightarrow>
          (case (if s > 0 \<and> avg
                 then (case spline_points sp (rev useg) (PFloat s) (PInt k)
                              (if closed_seg seg then 1 else 0) (rev (unew_values n)) of
                         Inl e \<Rightarrow> Inl e
                       | Inr seg2 \<Rightarrow> dstack_mean seg1 seg2)
                 else Inr seg1) of
             Inl e \<Rightarrow> Inl e
           | Inr seg' \<Rightarrow>
               Inr (seg', if kind \<noteq> None then Some (1 # replicate (nat n - 1) 2) else kind)))"
proof -
  obtain useg where u: "unique_vec perm seg = Inr (useg, if closed_seg seg then 1 else 0)"
    using unique_vec_result [OF assms(1,2)] by blast
  have k: "int_gt (int (useg_rows seg)) (self_k (smooth_object s k n base)) = Inr True"
    using assms(4) by (simp add: smooth_object_fields)
  have p: "gt_int (self_smooth (smooth_object s k n base)) 0 = Inr (s > 0)"
    by (simp add: smooth_object_fields)
  show ?thesis
    using u smooth_segs_long [OF assms(1,2) k u p, of sp kind avg]
    by (simp add: smooth_object_def stored_object_def cong del: sum.case_cong_weak if_weak_cong)
qed

text \<open>The closed triangle is fitted with \<open>per = 1\<close>: with \<open>flag_scipy\<close> every point of the result is \<open>(1, 1)\<close>.\<close>

theorem smooth_segs_spline_witness:
  "dict_order rev \<and> triangle \<noteq> [] \<and> (0::int) < 5 \<and> int (useg_rows triangle) > 3
   \<and> closed_seg triangle
   \<and> unique_vec rev triangle = Inr (triangle, 1)
   \<and> smooth_segs rev flag_scipy (smooth_object 0 3 5 ()) triangle None False
        = Inr ([[1, 1], [1, 1], [1, 1], [1, 1], [1, 1]], None)"
proof -
  have a: "triangle \<noteq> []" by (simp add: triangle_def)
  have b: "(0::int) < 5" by simp
  have c: "int (useg_rows triangle) > 3" by code_simp
  have d: "closed_seg triangle" by code_simp
  have e: "unique_vec rev triangle = Inr (triangle, 1)" by code_simp
  have f: "spline_points flag_scipy triangle (PFloat 0) (PInt 3) 1 (unew_values 5)
      = Inr [[1, 1], [1, 1], [1, 1], [1, 1], [1, 1]]"
    by code_simp
  show ?thesis
    using smooth_segs_spline [OF dict_order_rev a b c, of flag_scipy 0 "()" None False]
      a b c d e f dict_order_rev
    by simp
qed

lemma smooth_segs_perm:
  "dict_order perm \<Longrightarrow>
     smooth_segs perm sp self seg kind avg = smooth_segs (\<lambda>vs. vs) sp self seg kind avg"
  by (simp add: smooth_segs_def unique_vec_perm)

lemma smooth_line_segs_perm:
  "dict_order perm \<Longrightarrow>
     smooth_line_segs perm sp self segs kinds = smooth_line_segs (\<lambda>vs. vs) sp self segs kinds"
  by (induction segs arbitrary: kinds) (simp_all add: smooth_segs_perm split: sum.splits)

lemma line_levels_perm:
  "dict_order perm \<Longrightarrow>
     line_levels perm sp self tr levels = line_levels (\<lambda>vs. vs) sp self tr levels"
  by (induction levels) (simp_all add: smooth_line_segs_perm Let_def split: sum.splits)

lemma smooth_breaks_perm:
  "dict_order perm \<Longrightarrow>
     smooth_breaks perm sp self seg kind ndx tmp = smooth_breaks (\<lambda>vs. vs) sp self seg kind ndx tmp"
  by (induction "\<lambda>vs::nat list. vs" sp self seg kind ndx tmp rule: smooth_breaks.induct)
     (simp_all add: smooth_segs_perm split: sum.splits option.splits prod.splits)

lemma smooth_path_perm:
  "dict_order perm \<Longrightarrow> smooth_path perm sp self a c = smooth_path (\<lambda>vs. vs) sp self a c"
  by (simp add: smooth_path_def smooth_breaks_perm smooth_segs_perm
      cong: sum.case_cong if_cong)

lemma smooth_paths_perm:
  "dict_order perm \<Longrightarrow>
     smooth_paths perm sp self segs kinds = smooth_paths (\<lambda>vs. vs) sp self segs kinds"
  by (induction "\<lambda>vs::nat list. vs" sp self segs kinds rule: smooth_paths.induct)
     (simp_all add: smooth_path_perm split: sum.splits)

lemma filled_levels_perm:
  "dict_order perm \<Longrightarrow>
     filled_levels perm sp self tr levels = filled_levels (\<lambda>vs. vs) sp self tr levels"
  by (induction levels) (auto simp: smooth_paths_perm Let_def split: sum.splits)

text \<open>
  C10. The smoothing is deterministic: the results of \<open>_smooth_segs\<close> and of
  \<open>_get_allsegs_and_allkinds\<close> are functions of the segment, the parameters and the
  library routines, and do not depend on the order in which the dictionary of
  \<open>unique_vec\<close> lists its values: any two orders give the same segments and kinds.
\<close>

theorem smoothing_deterministic:
  assumes "dict_order perm" "dict_order perm'"
  shows "smooth_segs perm sp self seg kind avg = smooth_segs perm' sp self seg kind avg
       \<and> get_allsegs_and_allkinds perm sp self cs = get_allsegs_and_allkinds perm' sp self cs"
  by (simp add: get_allsegs_and_allkinds_def
      smooth_segs_perm [OF assms(1)] smooth_segs_perm [OF assms(2)]
      line_levels_perm [OF assms(1)] line_levels_perm [OF assms(2)]
      filled_levels_perm [OF assms(1)] filled_levels_perm [OF assms(2)]
      cong: sum.case_cong if_cong)

lemma smooth_segs_short':
  "dict_order perm \<Longrightarrow> short_seg (self_k self) seg \<Longrightarrow>
     smooth_segs perm sp self seg kind avg = Inr (seg, kind)"
  by (simp add: short_seg_def smooth_segs_short)

lemma smooth_line_segs_short:
  "dict_order perm \<Longrightarrow> list_all (short_array (self_k self)) segs \<Longrightarrow>
     smooth_line_segs perm sp self segs None = Inr (segs, None)"
proof (induction segs)
  case Nil
  then show ?case by simp
next
  case (Cons a segs)
  then obtain seg where a: "a = Vertices seg" "short_seg (self_k self) seg"
    by (cases a) auto
  with Cons show ?case by (simp add: smooth_segs_short')
qed

lemma line_levels_short:
  "dict_order perm \<Longrightarrow> list_all (\<lambda>level. short_level (self_k self) (tr level)) levels \<Longrightarrow>
     line_levels perm sp self tr levels = Inr (map (\<lambda>level. first_half (traced (tr level))) levels)"
proof (induction levels)
  case Nil
  then show ?case by simp
next
  case (Cons level levels)
  then obtain nlist where n: "tr level = Inr nlist"
      "list_all (short_array (self_k self)) (first_half nlist)"
    by (auto simp: short_level_def split: sum.splits)
  from Cons n show ?case
    using smooth_line_segs_short [OF Cons.prems(1) n(2), of sp]
    by (simp add: Let_def first_half_def traced_def)
qed

lemma py_slice_append:
  "p0 \<le> lo \<Longrightarrow> lo \<le> hi \<Longrightarrow> py_slice xs p0 lo @ py_slice xs lo hi = py_slice xs p0 hi"
proof -
  assume a: "p0 \<le> lo" "lo \<le> hi"
  have "take (hi - p0) (drop p0 xs) = take ((lo - p0) + (hi - lo)) (drop p0 xs)"
    using a by simp
  also have "\<dots> = take (lo - p0) (drop p0 xs) @ take (hi - lo) (drop (lo - p0) (drop p0 xs))"
    by (rule take_add)
  also have "drop (lo - p0) (drop p0 xs) = drop lo xs" using a by simp
  finally show ?thesis by (simp add: py_slice_def)
qed

lemma py_slice_all: "py_slice xs 0 (length xs) = xs"
  by (simp add: py_slice_def)

lemma py_slice_nonempty: "lo < hi \<Longrightarrow> hi \<le> length xs \<Longrightarrow> py_slice xs lo hi \<noteq> []"
  by (simp add: py_slice_def)

lemma set_py_slice: "set (py_slice xs lo hi) \<subseteq> set xs"
  by (metis py_slice_def set_drop_subset set_take_subset subset_trans)

lemma np_vstack2_one_width:
  assumes "one_width seg" "set a \<subseteq> set seg" "set b \<subseteq> set seg"
  shows "np_vstack2 a b = Inr (a @ b)"
proof (cases "a @ b")
  case Nil
  then show ?thesis by (simp add: np_vstack2_def)
next
  case (Cons r rs)
  have w: "\<forall>q \<in> set seg. length q = length (hd seg)"
    using assms(1) by (simp add: one_width_def list_all_iff)
  have "r \<in> set seg" using Cons assms(2,3)
    by (metis Un_iff list.set_intros(1) set_append subsetD)
  moreover have "\<forall>q \<in> set (a @ b). q \<in> set seg" using assms(2,3) by auto
  ultimately have "list_all (\<lambda>q. length q = length r) (a @ b)"
    using w by (simp add: list_all_iff)
  then show ?thesis using Cons by (simp add: np_vstack2_def)
qed

lemma smooth_breaks_some:
  assumes "dict_order perm" "one_width seg" "length seg = length kind"
  shows "sorted_wrt (<) (lo # rest) \<Longrightarrow> list_all (\<lambda>i. i \<le> length seg) (lo # rest) \<Longrightarrow> p0 \<le> lo \<Longrightarrow>
     list_all (\<lambda>(a, b). short_seg (self_k self) (py_slice seg a b)) (zip (lo # rest) rest) \<Longrightarrow>
     smooth_breaks perm sp self seg kind (lo # rest)
        (Some (py_slice seg p0 lo, Some (py_slice kind p0 lo)))
      = Inr (Some (py_slice seg p0 (last (lo # rest)), Some (py_slice kind p0 (last (lo # rest)))))"
proof (induction rest arbitrary: lo)
  case Nil
  then show ?case by simp
next
  case (Cons hi rest)
  have lt: "lo < hi" using Cons.prems(1) by simp
  have sh: "short_seg (self_k self) (py_slice seg lo hi)" using Cons.prems(4) by simp
  have sm: "smooth_segs perm sp self (py_slice seg lo hi) (Some (py_slice kind lo hi)) True
      = Inr (py_slice seg lo hi, Some (py_slice kind lo hi))"
    using smooth_segs_short' [OF assms(1) sh] .
  have vs: "np_vstack2 (py_slice seg p0 lo) (py_slice seg lo hi) = Inr (py_slice seg p0 hi)"
    using np_vstack2_one_width [OF assms(2) set_py_slice set_py_slice, of p0 lo lo hi]
      py_slice_append [OF Cons.prems(3), of hi seg] lt by simp
  have ap: "py_slice kind p0 lo @ py_slice kind lo hi = py_slice kind p0 hi"
    using py_slice_append [OF Cons.prems(3), of hi kind] lt by simp
  have ih: "smooth_breaks perm sp self seg kind (hi # rest)
        (Some (py_slice seg p0 hi, Some (py_slice kind p0 hi)))
      = Inr (Some (py_slice seg p0 (last (hi # rest)), Some (py_slice kind p0 (last (hi # rest)))))"
    using Cons.IH [of hi] Cons.prems lt by simp
  show ?case using sm vs ap ih by simp
qed

lemma smooth_breaks_none:
  assumes "dict_order perm" "one_width seg" "length seg = length kind"
    and "sorted_wrt (<) (lo # hi # rest)" "list_all (\<lambda>i. i \<le> length seg) (lo # hi # rest)"
    and "list_all (\<lambda>(a, b). short_seg (self_k self) (py_slice seg a b)) (zip (lo # hi # rest) (hi # rest))"
  shows "smooth_breaks perm sp self seg kind (lo # hi # rest) None
      = Inr (Some (py_slice seg lo (last (hi # rest)), Some (py_slice kind lo (last (hi # rest)))))"
proof -
  have lt: "lo < hi" using assms(4) by simp
  have sh: "short_seg (self_k self) (py_slice seg lo hi)" using assms(6) by simp
  have sm: "smooth_segs perm sp self (py_slice seg lo hi) (Some (py_slice kind lo hi)) True
      = Inr (py_slice seg lo hi, Some (py_slice kind lo hi))"
    using smooth_segs_short' [OF assms(1) sh] .
  have "smooth_breaks perm sp self seg kind (hi # rest)
        (Some (py_slice seg lo hi, Some (py_slice kind lo hi)))
      = Inr (Some (py_slice seg lo (last (hi # rest)), Some (py_slice kind lo (last (hi # rest)))))"
    using smooth_breaks_some [OF assms(1,2,3), of hi rest lo self sp] assms(4,5,6) lt by simp
  then show ?thesis using sm by simp
qed

lemma where_eq1_sorted: "sorted_wrt (<) (np_where_eq1 kind @ [length kind])"
  by (auto simp: np_where_eq1_def sorted_wrt_append intro: sorted_wrt_filter)

lemma where_eq1_bound: "list_all (\<lambda>i. i \<le> length kind) (np_where_eq1 kind @ [length kind])"
  by (auto simp: np_where_eq1_def list_all_iff)

lemma where_eq1_length: "length (np_where_eq1 kind) = length (filter (\<lambda>v. v = 1) kind)"
proof -
  have "filter (\<lambda>v. v = 1) kind = filter (\<lambda>v. v = 1) (map (\<lambda>i. kind ! i) [0..<length kind])"
    by (simp add: map_nth)
  also have "\<dots> = map (\<lambda>i. kind ! i) (filter (\<lambda>i. kind ! i = 1) [0..<length kind])"
    by (simp add: filter_map comp_def)
  finally show ?thesis by (simp add: np_where_eq1_def)
qed

lemma where_eq1_hd:
  assumes "kind \<noteq> []" "hd kind = 1"
  shows "\<exists>rest. np_where_eq1 kind = 0 # rest"
proof -
  have "[0..<length kind] = 0 # [1..<length kind]" using assms(1) by (simp add: upt_conv_Cons)
  moreover have "kind ! 0 = 1" using assms by (simp add: hd_conv_nth)
  ultimately show ?thesis by (simp add: np_where_eq1_def)
qed

lemma smooth_path_short:
  assumes "dict_order perm" "short_path (self_k self) (a, c)"
  shows "smooth_path perm sp self a c = Inr (a, c)"
proof -
  from assms(2) obtain seg kind where ac: "a = Vertices seg" "c = Codes kind"
    by (cases a; cases c) auto
  show ?thesis
  proof (cases "length (filter (\<lambda>v. v = 1) kind) > 1")
    case False
    with assms ac show ?thesis by (simp add: smooth_path_def smooth_segs_short')
  next
    case True
    with assms(2) ac have wf: "length seg = length kind" "hd kind = 1" "one_width seg"
      and pc: "list_all (\<lambda>(lo, hi). short_seg (self_k self) (py_slice seg lo hi)) (pieces kind)"
      by simp_all
    have ne: "kind \<noteq> []" using True by auto
    obtain r where r: "np_where_eq1 kind = 0 # r" using where_eq1_hd [OF ne wf(2)] by blast
    have "length (np_where_eq1 kind) > 1" using True by (simp add: where_eq1_length)
    then obtain hi r' where r': "r = hi # r'" using r by (cases r) auto
    let ?ndx = "0 # hi # (r' @ [length kind])"
    have ndx: "np_where_eq1 kind @ [length kind] = ?ndx" using r r' by simp
    have s: "sorted_wrt (<) ?ndx" using where_eq1_sorted [of kind] ndx by simp
    have b: "list_all (\<lambda>i. i \<le> length seg) ?ndx" using where_eq1_bound [of kind] ndx wf(1) by simp
    have p: "list_all (\<lambda>(a, b). short_seg (self_k self) (py_slice seg a b)) (zip ?ndx (hi # (r' @ [length kind])))"
      using pc ndx by (simp add: pieces_def Let_def)
    have "smooth_breaks perm sp self seg kind ?ndx None
      = Inr (Some (py_slice seg 0 (last (hi # (r' @ [length kind]))),
                   Some (py_slice kind 0 (last (hi # (r' @ [length kind]))))))"
      using smooth_breaks_none [OF assms(1) wf(3) wf(1) s b p] .
    then have "smooth_breaks perm sp self seg kind (np_where_eq1 kind @ [length kind]) None
      = Inr (Some (seg, Some kind))"
      using ndx wf(1) py_slice_all [of seg] py_slice_all [of kind] by simp
    with True ac show ?thesis by (simp add: smooth_path_def)
  qed
qed

lemma smooth_paths_short:
  "dict_order perm \<Longrightarrow> length segs \<le> length kinds \<Longrightarrow>
     list_all (short_path (self_k self)) (zip segs kinds) \<Longrightarrow>
     smooth_paths perm sp self segs kinds = Inr (segs, kinds)"
proof (induction segs arbitrary: kinds)
  case Nil
  then show ?case by simp
next
  case (Cons a segs)
  then obtain c kinds' where k: "kinds = c # kinds'" by (cases kinds) auto
  with Cons show ?case by (simp add: smooth_path_short)
qed

lemma halves_length: "length (first_half nlist) \<le> length (second_half nlist)"
  by (simp add: first_half_def second_half_def)

lemma filled_levels_short:
  "dict_order perm \<Longrightarrow>
     list_all (\<lambda>(l, u). short_filled_level (self_k self) (tr l u)) levels \<Longrightarrow>
     filled_levels perm sp self tr levels =
       Inr (map (\<lambda>(l, u). first_half (traced (tr l u))) levels,
            map (\<lambda>(l, u). second_half (traced (tr l u))) levels)"
proof (induction levels)
  case Nil
  then show ?case by simp
next
  case (Cons lu levels)
  obtain l u where lu: "lu = (l, u)" by (cases lu)
  with Cons obtain nlist where n: "tr l u = Inr nlist"
      "list_all (short_path (self_k self)) (zip (first_half nlist) (second_half nlist))"
    by (auto simp: short_filled_level_def split: sum.splits)
  have "smooth_paths perm sp self (first_half nlist) (second_half nlist)
      = Inr (first_half nlist, second_half nlist)"
    using smooth_paths_short [OF Cons.prems(1) halves_length n(2)] .
  with Cons lu n show ?case
    by (simp add: Let_def first_half_def second_half_def traced_def)
qed

lemma smooth_segs_none:
  "smooth_segs perm sp self seg None avg = Inr (s, kd) \<Longrightarrow> kd = None"
  by (auto simp: smooth_segs_def split: sum.splits prod.splits if_splits)

lemma smooth_line_segs_from:
  "smooth_line_segs perm sp self segs None = Inr (segs', kinds') \<Longrightarrow>
     kinds' = None \<and> list_all2 (smoothed_from perm sp self) segs segs'"
proof (induction segs arbitrary: segs' kinds')
  case Nil
  then show ?case by simp
next
  case (Cons a segs)
  from Cons.prems obtain seg s kd ss kd' where
    r: "rows_of a = Inr seg" and sm: "smooth_segs perm sp self seg None True = Inr (s, kd)"
    and rest: "smooth_line_segs perm sp self segs kd = Inr (ss, kd')"
    and out: "segs' = Vertices s # ss" "kinds' = kd'"
    by (auto split: sum.splits prod.splits)
  have kd: "kd = None" using smooth_segs_none [OF sm] .
  from Cons.IH [of ss kd'] rest kd have "kd' = None" "list_all2 (smoothed_from perm sp self) segs ss"
    by simp_all
  moreover have "smoothed_from perm sp self a (Vertices s)"
    using r sm kd by (auto simp: smoothed_from_def)
  ultimately show ?case using out by simp
qed

lemma line_levels_from:
  "line_levels perm sp self tr levels = Inr allsegs \<Longrightarrow>
     list_all2 (line_level_from perm sp self tr) levels allsegs"
proof (induction levels arbitrary: allsegs)
  case Nil
  then show ?case by simp
next
  case (Cons level levels)
  from Cons.prems obtain nlist segs' kd rest where
    t: "tr level = Inr nlist"
    and sm: "smooth_line_segs perm sp self (first_half nlist) None = Inr (segs', kd)"
    and r: "line_levels perm sp self tr levels = Inr rest"
    and out: "allsegs = segs' # rest"
    by (auto simp: Let_def first_half_def split: sum.splits prod.splits)
  have "line_level_from perm sp self tr level segs'"
    using t smooth_line_segs_from [OF sm] by (auto simp: line_level_from_def)
  with Cons.IH [OF r] out show ?case by simp
qed

lemma smooth_paths_from:
  "smooth_paths perm sp self segs kinds = Inr (segs', kinds') \<Longrightarrow>
     length segs' = length segs \<and> length kinds' = length kinds
     \<and> list_all2 (path_smoothed_from perm sp self) (zip segs kinds) (zip segs' kinds')"
proof (induction perm sp self segs kinds arbitrary: segs' kinds' rule: smooth_paths.induct)
  case (1 perm sp self a segs c kinds)
  from "1.prems" obtain a' c' ss ks where
    p: "smooth_path perm sp self a c = Inr (a', c')"
    and r: "smooth_paths perm sp self segs kinds = Inr (ss, ks)"
    and out: "segs' = a' # ss" "kinds' = c' # ks"
    by (auto split: sum.splits prod.splits)
  from "1.IH" [OF p refl r] out p show ?case
    by (simp add: path_smoothed_from_def)
next
  case (2 perm sp self kinds)
  then show ?case by simp
next
  case (3 perm sp self a segs)
  then show ?case by simp
qed

lemma filled_levels_from:
  "filled_levels perm sp self tr levels = Inr (allsegs, allkinds) \<Longrightarrow>
     length allsegs = length levels \<and> length allkinds = length levels
     \<and> list_all2 (filled_level_from perm sp self tr) levels (zip allsegs allkinds)"
proof (induction levels arbitrary: allsegs allkinds)
  case Nil
  then show ?case by simp
next
  case (Cons lu levels)
  obtain l u where lu: "lu = (l, u)" by (cases lu)
  from Cons.prems lu obtain nlist segs' kinds' as ak where
    t: "tr l u = Inr nlist"
    and sm: "smooth_paths perm sp self (first_half nlist) (second_half nlist) = Inr (segs', kinds')"
    and r: "filled_levels perm sp self tr levels = Inr (as, ak)"
    and out: "allsegs = segs' # as" "allkinds = kinds' # ak"
    by (auto simp: Let_def first_half_def second_half_def split: sum.splits prod.splits)
  have "filled_level_from perm sp self tr lu (segs', kinds')"
    using t lu smooth_paths_from [OF sm] by (auto simp: filled_level_from_def)
  with Cons.IH [OF r] out show ?case by simp
qed

text \<open>
  C4, amended. For every level, the entries of \<open>allsegs\<close> come one by one, in order,
  from the entries that the tracer returned (each is the smoothing of the traced
  segment, of the traced path in the filled case); and when \<open>unique_vec\<close> returns at most
  \<open>k\<close> rows for every traced segment (in the filled case: for every piece of every
  well-formed path), the method returns the tracer's segments and kinds unchanged.
\<close>

theorem allsegs_follow_tracer:
  assumes "dict_order perm"
  shows
   "(\<not> self_filled cs \<longrightarrow>
       (\<forall>allsegs allkinds.
           get_allsegs_and_allkinds perm sp self cs = Inr (allsegs, allkinds) \<longrightarrow>
             allkinds = None
             \<and> list_all2 (line_level_from perm sp self (trace_line cs)) (self_levels cs) allsegs)
       \<and> (list_all (\<lambda>level. short_level (self_k self) (trace_line cs level)) (self_levels cs) \<longrightarrow>
             get_allsegs_and_allkinds perm sp self cs =
               Inr (map (\<lambda>level. first_half (traced (trace_line cs level))) (self_levels cs), None)))
    \<and> (self_filled cs \<longrightarrow>
       (\<forall>allsegs allkinds.
           get_allsegs_and_allkinds perm sp self cs = Inr (allsegs, allkinds) \<longrightarrow>
             (\<exists>lowers uppers ak.
                 get_lowers_and_uppers cs = Inr (lowers, uppers) \<and> allkinds = Some ak
                 \<and> length allsegs = length ak
                 \<and> list_all2 (filled_level_from perm sp self
                                (\<lambda>l u. trace_filled cs l u (self_nchunk cs)))
                      (zip lowers uppers) (zip allsegs ak)))
       \<and> (\<forall>lowers uppers.
             get_lowers_and_uppers cs = Inr (lowers, uppers) \<longrightarrow>
             list_all (\<lambda>(l, u). short_filled_level (self_k self)
                                   (trace_filled cs l u (self_nchunk cs)))
                      (zip lowers uppers) \<longrightarrow>
             get_allsegs_and_allkinds perm sp self cs =
               Inr (map (\<lambda>(l, u). first_half (traced (trace_filled cs l u (self_nchunk cs))))
                        (zip lowers uppers),
                    Some (map (\<lambda>(l, u). second_half (traced (trace_filled cs l u (self_nchunk cs))))
                              (zip lowers uppers)))))"
proof (intro conjI impI allI)
  fix allsegs allkinds
  assume "\<not> self_filled cs"
    and "get_allsegs_and_allkinds perm sp self cs = Inr (allsegs, allkinds)"
  then have l: "line_levels perm sp self (trace_line cs) (self_levels cs) = Inr allsegs"
    and k: "allkinds = None"
    by (auto simp: get_allsegs_and_allkinds_def split: sum.splits)
  show "allkinds = None" by (rule k)
  show "list_all2 (line_level_from perm sp self (trace_line cs)) (self_levels cs) allsegs"
    using line_levels_from [OF l] .
next
  assume "\<not> self_filled cs"
    and "list_all (\<lambda>level. short_level (self_k self) (trace_line cs level)) (self_levels cs)"
  then show "get_allsegs_and_allkinds perm sp self cs =
      Inr (map (\<lambda>level. first_half (traced (trace_line cs level))) (self_levels cs), None)"
    using line_levels_short [OF assms, of self "trace_line cs" "self_levels cs" sp]
    by (simp add: get_allsegs_and_allkinds_def)
next
  fix allsegs allkinds
  assume "self_filled cs"
    and "get_allsegs_and_allkinds perm sp self cs = Inr (allsegs, allkinds)"
  then obtain lowers uppers ak where
    lu: "get_lowers_and_uppers cs = Inr (lowers, uppers)"
    and f: "filled_levels perm sp self (\<lambda>l u. trace_filled cs l u (self_nchunk cs))
              (zip lowers uppers) = Inr (allsegs, ak)"
    and k: "allkinds = Some ak"
    by (auto simp: get_allsegs_and_allkinds_def split: sum.splits prod.splits)
  show "\<exists>lowers uppers ak.
          get_lowers_and_uppers cs = Inr (lowers, uppers) \<and> allkinds = Some ak
          \<and> length allsegs = length ak
          \<and> list_all2 (filled_level_from perm sp self (\<lambda>l u. trace_filled cs l u (self_nchunk cs)))
               (zip lowers uppers) (zip allsegs ak)"
    using lu k filled_levels_from [OF f] by auto
next
  fix lowers uppers
  assume "self_filled cs" and "get_lowers_and_uppers cs = Inr (lowers, uppers)"
    and "list_all (\<lambda>(l, u). short_filled_level (self_k self)
                                   (trace_filled cs l u (self_nchunk cs))) (zip lowers uppers)"
  then show "get_allsegs_and_allkinds perm sp self cs =
               Inr (map (\<lambda>(l, u). first_half (traced (trace_filled cs l u (self_nchunk cs))))
                        (zip lowers uppers),
                    Some (map (\<lambda>(l, u). second_half (traced (trace_filled cs l u (self_nchunk cs))))
                              (zip lowers uppers)))"
    using filled_levels_short [OF assms, of self "\<lambda>l u. trace_filled cs l u (self_nchunk cs)"
        "zip lowers uppers" sp]
    by (simp add: get_allsegs_and_allkinds_def)
qed

text \<open>
  C4 as stated fails: the tracer returns the closed triangle, which has three distinct
  points, not more than \<open>k = 3\<close>, and the method does not return it unchanged.
\<close>

theorem closed_triangle_smoothed_counterexample:
  "trace_line triangle_tracer (1 / 2) = Inr [Vertices triangle, Codes [1, 2, 2, 2]]
   \<and> self_k (smooth_object 0 3 5 ()) = PInt 3
   \<and> int (length (remdups triangle)) \<le> 3
   \<and> get_allsegs_and_allkinds rev diagonal_scipy (smooth_object 0 3 5 ()) triangle_tracer
        \<noteq> Inr ([[Vertices triangle]], None)"
  by code_simp

lemma dict_order_same: "dict_order (\<lambda>vs. vs)"
  by (simp add: dict_order_def)

text \<open>For \<open>k = 4\<close> nothing is smoothed: the traced triangle, and the traced path of two pieces with its codes, come back unchanged.\<close>

theorem allsegs_follow_tracer_witness:
  "dict_order rev
   \<and> \<not> self_filled triangle_tracer
   \<and> list_all (\<lambda>level. short_level (PInt 4) (trace_line triangle_tracer level)) (self_levels triangle_tracer)
   \<and> get_allsegs_and_allkinds rev diagonal_scipy (smooth_object 0 4 5 ()) triangle_tracer
        = Inr ([[Vertices triangle]], None)
   \<and> self_filled two_piece_tracer
   \<and> get_lowers_and_uppers two_piece_tracer = Inr ([1 / 2], [1])
   \<and> list_all (\<lambda>(l, u). short_filled_level (PInt 4) (trace_filled two_piece_tracer l u 0)) (zip [1 / 2] [1])
   \<and> get_allsegs_and_allkinds rev diagonal_scipy (smooth_object 0 4 5 ()) two_piece_tracer
        = Inr ([[Vertices (open_path @ open_path)]], Some [[Codes [1, 2, 2, 2, 1, 2, 2, 2]]])"
proof -
  have a: "\<not> self_filled triangle_tracer" by code_simp
  have b: "list_all (\<lambda>level. short_level (PInt 4) (trace_line triangle_tracer level)) (self_levels triangle_tracer)"
    by code_simp
  have c: "map (\<lambda>level. first_half (traced (trace_line triangle_tracer level))) (self_levels triangle_tracer)
      = [[Vertices triangle]]" by code_simp
  have d: "self_filled two_piece_tracer" by code_simp
  have e: "get_lowers_and_uppers two_piece_tracer = Inr ([1 / 2], [1])" by code_simp
  have n: "self_nchunk two_piece_tracer = 0" by code_simp
  have f: "list_all (\<lambda>(l, u). short_filled_level (PInt 4) (trace_filled two_piece_tracer l u 0)) (zip [1 / 2] [1])"
    by code_simp
  have g: "map (\<lambda>(l, u). first_half (traced (trace_filled two_piece_tracer l u 0))) (zip [1 / 2] [1])
      = [[Vertices (open_path @ open_path)]]" by code_simp
  have h: "map (\<lambda>(l, u). second_half (traced (trace_filled two_piece_tracer l u 0))) (zip [1 / 2] [1])
      = [[Codes [1, 2, 2, 2, 1, 2, 2, 2]]]" by code_simp
  have k: "self_k (smooth_object 0 4 5 ()) = PInt 4" by (simp add: smooth_object_fields)
  show ?thesis
    using allsegs_follow_tracer [OF dict_order_rev, of triangle_tracer diagonal_scipy "smooth_object 0 4 5 ()"]
      allsegs_follow_tracer [OF dict_order_rev, of two_piece_tracer diagonal_scipy "smooth_object 0 4 5 ()"]
      a b c d e f g h k n dict_order_rev
    by simp
qed

text \<open>The dictionary order reversed and the dictionary order kept give the same results.\<close>

theorem smoothing_deterministic_witness:
  "dict_order rev \<and> dict_order (\<lambda>vs. vs)
   \<and> smooth_segs rev diagonal_scipy (smooth_object 1 3 5 ()) triangle (Some [1, 2, 2, 2]) True
        = smooth_segs (\<lambda>vs. vs) diagonal_scipy (smooth_object 1 3 5 ()) triangle (Some [1, 2, 2, 2]) True
   \<and> get_allsegs_and_allkinds rev diagonal_scipy (smooth_object 1 3 5 ()) triangle_tracer
        = get_allsegs_and_allkinds (\<lambda>vs. vs) diagonal_scipy (smooth_object 1 3 5 ()) triangle_tracer"
  using smoothing_deterministic [OF dict_order_rev dict_order_same, of diagonal_scipy
      "smooth_object 1 3 5 ()" triangle "Some [1, 2, 2, 2]" True triangle_tracer]
    dict_order_rev dict_order_same
  by simp

section \<open>Properties of \<open>scatter_contour\<close>\<close>


lemma histogram_counts_length:
  "length (histogram_counts x y xbins ybins) = length xbins - 1"
  by (simp add: histogram_counts_def)

lemma histogram_counts_rect:
  "list_all (\<lambda>r. length r = length ybins - 1) (histogram_counts x y xbins ybins)"
  by (simp add: histogram_counts_def list_all_iff)













text \<open>
  C1 at \<open>x = [0, 10]\<close>, \<open>y = [0, 10]\<close> with the default arguments: the point
  \<open>(10, 10)\<close> lies in the histogram bin \<open>(9, 9)\<close>, whose count 1 is above 0 and below the
  threshold 100, and it is not among the points handed to \<open>ax.plot\<close>: the mask tests
  \<open>x < xbins[i+1]\<close>, and numpy's last bin holds its right edge.
\<close>

theorem top_edge_point_dropped:
  "in_bin ten_bins 9 10
   \<and> histogram_counts [0, 10] [0, 10] ten_bins ten_bins ! 9 ! 9 = 1
   \<and> (case scatter_density
             (stub_libraries (\<lambda>h x y. Inr (ten_bins, ten_bins)) [[]] (\<lambda>p X. Inr []) (\<lambda>X p. Inr []))
             [0, 10] [0, 10] (NLevels 10) 100 False Map.empty of
         Inl e \<Rightarrow> False
       | Inr d \<Rightarrow> points_outside_mask [0, 10] [0, 10] d = [True, False]
                  \<and> outside_points [0, 10] [0, 10] d = [[0, 0]])
   \<and> fst (scatter_contour
             (stub_libraries (\<lambda>h x y. Inr (ten_bins, ten_bins)) [[]] (\<lambda>p X. Inr []) (\<lambda>X p. Inr []))
             [0, 10] [0, 10] (NLevels 10) 100 False None None None True None None all_held)
        = Inr ([(0, 0)], Quad [[]])"
  by code_simp

section \<open>Exceptions\<close>








































end
